theory Spec2Isabelle
  imports Main "HOL-Library.Word"
begin

section \<open>JavaScript strings and the e-mail pattern\<close>

text \<open>
  A JavaScript string is a sequence of 16-bit code units, and a regular expression
  without the \<^verbatim>\<open>u\<close> flag works on code units. String literals of the script are
  all ASCII; \<open>js\<close> turns an Isabelle literal into its code units.
\<close>

type_synonym cu = "16 word"
type_synonym jsstring = "cu list"

definition js :: "string \<Rightarrow> jsstring" where
  "js cs = map of_char cs"

text \<open>
  The class \<^verbatim>\<open>\s\<close> of ECMAScript: the WhiteSpace and LineTerminator code points
  (tab, LF, VT, FF, CR, space, NBSP, U+1680, U+2000..U+200A, U+2028, U+2029, U+202F,
  U+205F, U+3000, U+FEFF).
\<close>

definition isWhiteSpace :: "cu \<Rightarrow> bool" where
  "isWhiteSpace c =
     (List.member [0x9, 0xA, 0xB, 0xC, 0xD, 0x20, 0xA0, 0x1680, 0x2028, 0x2029,
                   0x202F, 0x205F, 0x3000, 0xFEFF] c
      \<or> (0x2000 \<le> c \<and> c \<le> 0x200A))"

text \<open>
  The pattern of the script is \<^verbatim>\<open>/^[^\s@]+@[^\s@]+\.[^\s@]+$/\<close>: a sequence of atoms,
  each taken once or one-or-more times, anchored at both ends. An atom is a literal
  code unit or the negated class \<^verbatim>\<open>[^\s@]\<close> (written with the excluded code unit as
  its argument). \<open>matches\<close> is the backtracking matcher: a \<^verbatim>\<open>+\<close> first tries to take
  another code unit and then falls back to the rest of the pattern.
\<close>

datatype atom = Lit cu | NotSpaceNor cu
datatype quant = Once | OneOrMore

fun atom_matches :: "atom \<Rightarrow> cu \<Rightarrow> bool" where
  "atom_matches (Lit a) c = (c = a)"
| "atom_matches (NotSpaceNor a) c = (\<not> isWhiteSpace c \<and> c \<noteq> a)"

fun matches :: "(atom \<times> quant) list \<Rightarrow> jsstring \<Rightarrow> bool" where
  "matches [] s = (s = [])"
| "matches ((a, q) # ps) [] = False"
| "matches ((a, Once) # ps) (c # cs) = (atom_matches a c \<and> matches ps cs)"
| "matches ((a, OneOrMore) # ps) (c # cs) =
     (atom_matches a c \<and> (matches ((a, OneOrMore) # ps) cs \<or> matches ps cs))"

definition at_sign :: cu where
  "at_sign = 0x40"

definition full_stop :: cu where
  "full_stop = 0x2E"

definition emailRegex :: "(atom \<times> quant) list" where
  "emailRegex =
     [(NotSpaceNor at_sign, OneOrMore), (Lit at_sign, Once),
      (NotSpaceNor at_sign, OneOrMore), (Lit full_stop, Once),
      (NotSpaceNor at_sign, OneOrMore)]"

definition emailRegex_test :: "jsstring \<Rightarrow> bool" where
  "emailRegex_test s = matches emailRegex s"

text \<open>
  The specification's wording of the same set, kept apart from the matcher: a string
  of the shape local@domain.tld with the three parts non-empty, exactly one \<^verbatim>\<open>@\<close>,
  a full stop after it, and no white space anywhere.
\<close>

definition spec_local_at_domain_tld :: "jsstring \<Rightarrow> bool" where
  "spec_local_at_domain_tld s =
     (\<exists>l d t. s = l @ [at_sign] @ d @ [full_stop] @ t
        \<and> l \<noteq> [] \<and> d \<noteq> [] \<and> t \<noteq> []
        \<and> count_list s at_sign = 1
        \<and> \<not> list_ex isWhiteSpace s)"

section \<open>The page: elements, timers, console\<close>

datatype js_error = TypeError

record control =
  cvalue :: jsstring
  defaultValue :: jsstring

record button_el =
  textContent :: jsstring
  disabled :: bool

text \<open>
  A form is the map from the names of its controls to the controls, and its submit
  button, as \<^verbatim>\<open>form.querySelector('button[type="submit"]')\<close> finds it (\<open>None\<close> is null).
\<close>

record form_el =
  controls :: "string \<Rightarrow> control option"
  submitButton :: "button_el option"

record icon_el =
  className :: jsstring
  color :: jsstring

text \<open>
  The toast element with the children the scripts look up in it; a child that is
  \<open>None\<close> is one \<^verbatim>\<open>querySelector\<close> does not find. \<open>shown\<close> is the class \<^verbatim>\<open>show\<close>,
  \<open>toastType\<close> the data attribute.
\<close>

record toast_el =
  toastTitle :: "jsstring option"
  toastDescription :: "jsstring option"
  toastIcon :: "icon_el option"
  toastType :: "jsstring option"
  shown :: bool

record header_el =
  scrolled :: bool

text \<open>
  The transform of the hero background is \<^verbatim>\<open>translateY(${scrollY * 0.4}px)\<close>; the
  model keeps the offset it was computed from instead of the floating-point product.
\<close>

record hero_el =
  parallaxOf :: "int option"

record card_el =
  isVisible :: bool
  observed :: bool

datatype listener =
    OnToggleClick | OnCloseClick | OnOverlayClick | OnMobileNavLinkClick | OnNavLinkClick
  | OnFormSubmit | OnScroll | OnKeydown

type_synonym formdata = "string \<Rightarrow> jsstring option"

datatype callback =
    HideToast
  | ClearThrottle
  | ResumeSubmit formdata jsstring
  | LegacySettle formdata jsstring

text \<open>
  A console entry: \<^verbatim>\<open>console.log(label, object)\<close> with the object's form fields and, when
  the object has one, its \<^verbatim>\<open>timestamp\<close> property (the clock reading that
  \<^verbatim>\<open>new Date().toISOString()\<close> renders), or \<^verbatim>\<open>console.error(label, error)\<close>.
\<close>

datatype log_entry =
    ConsoleLog jsstring formdata "nat option"
  | ConsoleError jsstring js_error

text \<open>
  What the markup provides: the elements the controller looks up by id or selector.
\<close>

record document =
  doc_header :: "header_el option"
  doc_mobileMenuToggle :: bool
  doc_mobileMenuOverlay :: bool
  doc_mobileMenuClose :: bool
  doc_contactForm :: "form_el option"
  doc_toast :: "toast_el option"
  doc_heroBackground :: "hero_el option"
  doc_navLinks :: nat
  doc_mobileNavLinks :: nat
  doc_animatedElements :: "card_el list"

text \<open>
  The state of the page. The first ten fields are \<^verbatim>\<open>App.elements\<close>: each holds the
  state of the element the handle refers to (\<open>None\<close> or \<open>False\<close> for a null handle; the
  two node lists by their length, the cards by their state). Elements are never
  created or removed by the script, so a handle and its element stay together.
  \<open>now\<close> is the clock in milliseconds and \<open>timers\<close> the pending \<^verbatim>\<open>setTimeout\<close>
  callbacks with their due times. \<open>scrollCalls\<close> is instrumentation: the time and the
  scroll offset of every invocation of \<open>handleScroll\<close>; nothing reads it.
\<close>

record page =
  header :: "header_el option"
  mobileMenuToggle :: bool
  mobileMenuOverlay :: bool
  mobileMenuClose :: bool
  contactForm :: "form_el option"
  toast :: "toast_el option"
  heroBackground :: "hero_el option"
  navLinks :: nat
  mobileNavLinks :: nat
  animatedElements :: "card_el list"
  listeners :: "listener list"
  menuOpen :: bool
  scrollY :: int
  inThrottle :: bool
  now :: nat
  timers :: "(nat \<times> callback) list"
  console :: "log_entry list"
  preloaded :: nat
  bodyOpacity :: "jsstring option"
  fadeInRequested :: bool
  scrollCalls :: "(nat \<times> int) list"

type_synonym handler = "page \<Rightarrow> (js_error + unit) \<times> page"

definition headerScrollThreshold :: int where
  "headerScrollThreshold = 50"

definition scrollThrottleLimit :: nat where
  "scrollThrottleLimit = 16"

text \<open>The page before \<open>init\<close>: \<^verbatim>\<open>elements: {}\<close>, nothing bound, nothing pending.\<close>

definition App :: page where
  "App = \<lparr> header = None, mobileMenuToggle = False, mobileMenuOverlay = False,
           mobileMenuClose = False, contactForm = None, toast = None,
           heroBackground = None, navLinks = 0, mobileNavLinks = 0,
           animatedElements = [], listeners = [], menuOpen = False, scrollY = 0,
           inThrottle = False, now = 0, timers = [], console = [], preloaded = 0,
           bodyOpacity = None, fadeInRequested = False, scrollCalls = [] \<rparr>"

section \<open>The controller\<close>

subsection \<open>Initialisation\<close>

definition cacheDOMElements :: "document \<Rightarrow> page \<Rightarrow> page" where
  "cacheDOMElements doc s =
     s\<lparr> header := doc_header doc,
        mobileMenuToggle := doc_mobileMenuToggle doc,
        mobileMenuOverlay := doc_mobileMenuOverlay doc,
        mobileMenuClose := doc_mobileMenuClose doc,
        contactForm := doc_contactForm doc,
        toast := doc_toast doc,
        heroBackground := doc_heroBackground doc,
        navLinks := doc_navLinks doc,
        mobileNavLinks := doc_mobileNavLinks doc,
        animatedElements := doc_animatedElements doc \<rparr>"

definition addEventListener :: "listener \<Rightarrow> page \<Rightarrow> page" where
  "addEventListener l s = s\<lparr> listeners := listeners s @ [l] \<rparr>"

definition addEventListeners :: "nat \<Rightarrow> listener \<Rightarrow> page \<Rightarrow> page" where
  "addEventListeners n l s = s\<lparr> listeners := listeners s @ replicate n l \<rparr>"

text \<open>
  \<open>bindEvents\<close> calls \<^verbatim>\<open>addEventListener\<close> on the three menu controls without a test:
  on a null handle that is a TypeError, and the statements after it do not run. Only
  the contact form is tested. The two \<^verbatim>\<open>forEach\<close> loops bind one listener per link.
\<close>

definition bindEvents :: handler where
  "bindEvents s =
     (if \<not> mobileMenuToggle s then (Inl TypeError, s)
      else let s1 = addEventListener OnToggleClick s in
      if \<not> mobileMenuClose s1 then (Inl TypeError, s1)
      else let s2 = addEventListener OnCloseClick s1 in
      if \<not> mobileMenuOverlay s2 then (Inl TypeError, s2)
      else let s3 = addEventListener OnOverlayClick s2;
               s4 = addEventListeners (mobileNavLinks s3) OnMobileNavLinkClick s3;
               s5 = addEventListeners (navLinks s4) OnNavLinkClick s4;
               s6 = (if contactForm s5 \<noteq> None then addEventListener OnFormSubmit s5 else s5);
               s7 = addEventListener OnScroll s6;
               s8 = addEventListener OnKeydown s7
           in (Inr (), s8))"

definition setupObservers :: "page \<Rightarrow> page" where
  "setupObservers s =
     s\<lparr> animatedElements := map (\<lambda>el. el\<lparr> observed := True \<rparr>) (animatedElements s) \<rparr>"

definition preloadAssets :: "page \<Rightarrow> page" where
  "preloadAssets s = s\<lparr> preloaded := 4 \<rparr>"

definition pageLoadAnimation :: "page \<Rightarrow> page" where
  "pageLoadAnimation s = s\<lparr> bodyOpacity := Some (js ''0''), fadeInRequested := True \<rparr>"

text \<open>
  \<open>init\<close> runs the five steps in order; an exception of \<open>bindEvents\<close> leaves \<open>init\<close>
  at once, so the three steps after it do not run.
\<close>

definition init :: "document \<Rightarrow> handler" where
  "init doc s =
     (case bindEvents (cacheDOMElements doc s) of
        (Inl err, s1) \<Rightarrow> (Inl err, s1)
      | (Inr u, s1) \<Rightarrow> (Inr (), pageLoadAnimation (preloadAssets (setupObservers s1))))"

subsection \<open>Menu, scrolling and the throttle\<close>

definition toggleMobileMenu :: "bool \<Rightarrow> page \<Rightarrow> page" where
  "toggleMobileMenu show s = s\<lparr> menuOpen := show \<rparr>"

definition setTimeout :: "callback \<Rightarrow> nat \<Rightarrow> page \<Rightarrow> page" where
  "setTimeout cb delay s = s\<lparr> timers := timers s @ [(now s + delay, cb)] \<rparr>"

definition handleScroll :: handler where
  "handleScroll s =
     (let y = scrollY s;
          s0 = s\<lparr> scrollCalls := scrollCalls s @ [(now s, y)] \<rparr>
      in case header s0 of
           None \<Rightarrow> (Inl TypeError, s0)
         | Some h \<Rightarrow>
             let s1 = s0\<lparr> header := Some (h\<lparr> scrolled := (y > headerScrollThreshold) \<rparr>) \<rparr>
             in (Inr (),
                 case heroBackground s1 of
                   None \<Rightarrow> s1
                 | Some b \<Rightarrow> s1\<lparr> heroBackground := Some (b\<lparr> parallaxOf := Some y \<rparr>) \<rparr>))"

text \<open>
  \<open>throttle\<close>: the flag \<^verbatim>\<open>inThrottle\<close> of the closure is a field of the page (the script
  makes one throttled function). When \<^verbatim>\<open>func\<close> throws, the two statements after the
  call do not run: the flag stays unset and no timer is started.
\<close>

definition throttle :: "handler \<Rightarrow> nat \<Rightarrow> handler" where
  "throttle func limit s =
     (if \<not> inThrottle s then
        (case func s of
           (Inl err, s1) \<Rightarrow> (Inl err, s1)
         | (Inr u, s1) \<Rightarrow> (Inr (), setTimeout ClearThrottle limit (s1\<lparr> inThrottle := True \<rparr>)))
      else (Inr (), s))"

definition throttledScrollHandler :: handler where
  "throttledScrollHandler = throttle handleScroll scrollThrottleLimit"

subsection \<open>The toast\<close>

record toast_args =
  title :: jsstring
  message :: jsstring
  type' :: "jsstring option"

definition showToast :: "toast_args \<Rightarrow> handler" where
  "showToast args s =
     (case toast s of
        None \<Rightarrow> (Inl TypeError, s)
      | Some t \<Rightarrow>
          (case toastTitle t of
             None \<Rightarrow> (Inl TypeError, s)
           | Some old_title \<Rightarrow>
               let t1 = t\<lparr> toastTitle := Some (title args) \<rparr> in
               (case toastDescription t1 of
                  None \<Rightarrow> (Inl TypeError, s\<lparr> toast := Some t1 \<rparr>)
                | Some old_description \<Rightarrow>
                    let t2 = t1\<lparr> toastDescription := Some (message args),
                                 toastType := Some (case type' args of
                                                      None \<Rightarrow> js ''success''
                                                    | Some ty \<Rightarrow> ty),
                                 shown := True \<rparr>
                    in (Inr (), setTimeout HideToast 5000 (s\<lparr> toast := Some t2 \<rparr>)))))"

definition hideToast :: "page \<Rightarrow> page" where
  "hideToast s = s\<lparr> toast := map_option (\<lambda>t. t\<lparr> shown := False \<rparr>) (toast s) \<rparr>"

definition handleKeyboard :: "jsstring \<Rightarrow> handler" where
  "handleKeyboard key s =
     (if key = js ''Escape'' then
        (let s1 = (if menuOpen s then toggleMobileMenu False s else s) in
         case toast s1 of
           None \<Rightarrow> (Inl TypeError, s1)
         | Some t \<Rightarrow> (Inr (), if shown t then hideToast s1 else s1))
      else (Inr (), s))"

subsection \<open>The form submission\<close>

text \<open>
  \<^verbatim>\<open>Object.fromEntries(new FormData(form))\<close>: the current value of every named control.
  A field value is a string, so \<^verbatim>\<open>!data.x\<close> holds when the key is missing (undefined)
  or the value is the empty string. \<^verbatim>\<open>test\<close> turns its argument into a string first.
\<close>

definition formData :: "form_el \<Rightarrow> formdata" where
  "formData form = (\<lambda>name. map_option cvalue (controls form name))"

definition falsy :: "jsstring option \<Rightarrow> bool" where
  "falsy v = (case v of None \<Rightarrow> True | Some x \<Rightarrow> x = [])"

definition toString :: "jsstring option \<Rightarrow> jsstring" where
  "toString v = (case v of None \<Rightarrow> js ''undefined'' | Some x \<Rightarrow> x)"

text \<open>\<^verbatim>\<open>form.reset()\<close> gives every control its default value back.\<close>

definition reset :: "form_el \<Rightarrow> form_el" where
  "reset form =
     form\<lparr> controls := (\<lambda>name. map_option (\<lambda>c. c\<lparr> cvalue := defaultValue c \<rparr>)
                                             (controls form name)) \<rparr>"

definition missingFieldsToast :: toast_args where
  "missingFieldsToast =
     \<lparr> title = js ''Error'', message = js ''Please fill in all required fields.'',
       type' = Some (js ''error'') \<rparr>"

definition invalidEmailToast :: toast_args where
  "invalidEmailToast =
     \<lparr> title = js ''Error'', message = js ''Please enter a valid email address.'',
       type' = Some (js ''error'') \<rparr>"

definition successToast :: toast_args where
  "successToast =
     \<lparr> title = js ''Success'', message = js ''Your message has been sent successfully!'',
       type' = None \<rparr>"

definition failureToast :: toast_args where
  "failureToast =
     \<lparr> title = js ''Error'', message = js ''Something went wrong. Please try again.'',
       type' = Some (js ''error'') \<rparr>"

text \<open>
  \<open>handleFormSubmit\<close> up to its \<^verbatim>\<open>await\<close>. \<open>form\<close> is \<^verbatim>\<open>e.currentTarget\<close>, the
  contact form. The result \<open>Inl\<close> is a rejected promise. The rest of the function is
  the callback \<open>ResumeSubmit\<close> of the one-second timer, with the two values the
  closure keeps: \<^verbatim>\<open>data\<close> and \<^verbatim>\<open>originalButtonText\<close>.
\<close>

definition handleFormSubmit :: "form_el \<Rightarrow> handler" where
  "handleFormSubmit form s =
     (let data = formData form in
      if falsy (data ''firstName'') \<or> falsy (data ''lastName'')
         \<or> falsy (data ''email'') \<or> falsy (data ''message'')
      then showToast missingFieldsToast s
      else if \<not> emailRegex_test (toString (data ''email''))
      then showToast invalidEmailToast s
      else
        (case submitButton form of
           None \<Rightarrow> (Inl TypeError, s)
         | Some b \<Rightarrow>
             let originalButtonText = textContent b;
                 b1 = b\<lparr> textContent := js ''Sending...'', disabled := True \<rparr>;
                 s1 = s\<lparr> contactForm := Some (form\<lparr> submitButton := Some b1 \<rparr>) \<rparr>
             in (Inr (), setTimeout (ResumeSubmit data originalButtonText) 1000 s1)))"

text \<open>
  The \<^verbatim>\<open>finally\<close> block writes to the button the handler looked up before the
  \<^verbatim>\<open>await\<close>; that button was not null, or the handler would not have got this far.
\<close>

definition restoreButton :: "jsstring \<Rightarrow> page \<Rightarrow> page" where
  "restoreButton originalButtonText s =
     s\<lparr> contactForm :=
          map_option
            (\<lambda>form. form\<lparr> submitButton :=
                 map_option (\<lambda>b. b\<lparr> textContent := originalButtonText, disabled := False \<rparr>)
                            (submitButton form) \<rparr>)
            (contactForm s) \<rparr>"

definition formReset :: "page \<Rightarrow> page" where
  "formReset s = s\<lparr> contactForm := map_option reset (contactForm s) \<rparr>"

text \<open>
  \<open>handleFormSubmit\<close> after the \<^verbatim>\<open>await\<close>: the \<^verbatim>\<open>try\<close> block logs, shows the success
  toast and resets the form; an exception there (only \<open>showToast\<close> can throw) goes to
  the \<^verbatim>\<open>catch\<close> block, whose own \<open>showToast\<close> may throw again; \<^verbatim>\<open>finally\<close> runs in
  every case.
\<close>

definition resumeSubmit :: "formdata \<Rightarrow> jsstring \<Rightarrow> handler" where
  "resumeSubmit data originalButtonText s =
     (let s1 = s\<lparr> console := console s @ [ConsoleLog (js ''Form Submitted:'') data None] \<rparr>
      in case showToast successToast s1 of
           (Inr u, s2) \<Rightarrow> (Inr (), restoreButton originalButtonText (formReset s2))
         | (Inl err, s2) \<Rightarrow>
             let s3 = s2\<lparr> console := console s2
                            @ [ConsoleError (js ''Form submission error:'') err] \<rparr>
             in (case showToast failureToast s3 of
                   (r, s4) \<Rightarrow> (r, restoreButton originalButtonText s4)))"

subsection \<open>The earlier script\<close>

text \<open>
  The repository also holds the earlier, flat script with its own submit handler and
  \<open>showToast\<close>. Its toast sets an icon by type; its submit handler resets the form
  and the button in the timer callback, shows the toast, and then logs the data with
  a \<^verbatim>\<open>timestamp\<close> property.
\<close>

definition legacy_showToast :: "jsstring \<Rightarrow> jsstring \<Rightarrow> jsstring \<Rightarrow> handler" where
  "legacy_showToast ttl msg ty s =
     (case toast s of
        None \<Rightarrow> (Inl TypeError, s)
      | Some t \<Rightarrow>
          (case toastTitle t of
             None \<Rightarrow> (Inl TypeError, s)
           | Some old_title \<Rightarrow>
               let t1 = t\<lparr> toastTitle := Some ttl \<rparr> in
               (case toastDescription t1 of
                  None \<Rightarrow> (Inl TypeError, s\<lparr> toast := Some t1 \<rparr>)
                | Some old_description \<Rightarrow>
                    let t2 = t1\<lparr> toastDescription := Some msg \<rparr>;
                        icon = (if ty = js ''success''
                                then Some \<lparr> className = js ''fas fa-check-circle'',
                                            color = js ''#10b981'' \<rparr>
                                else if ty = js ''error''
                                then Some \<lparr> className = js ''fas fa-exclamation-circle'',
                                            color = js ''#ef4444'' \<rparr>
                                else None)
                    in (case icon of
                          None \<Rightarrow>
                            (Inr (), setTimeout HideToast 5000
                                       (s\<lparr> toast := Some (t2\<lparr> shown := True \<rparr>) \<rparr>))
                        | Some i \<Rightarrow>
                            (case toastIcon t2 of
                               None \<Rightarrow> (Inl TypeError, s\<lparr> toast := Some t2 \<rparr>)
                             | Some old_icon \<Rightarrow>
                                 (Inr (), setTimeout HideToast 5000
                                            (s\<lparr> toast := Some (t2\<lparr> toastIcon := Some i,
                                                                      shown := True \<rparr>) \<rparr>)))))))"

definition legacy_submit :: "form_el \<Rightarrow> handler" where
  "legacy_submit form s =
     (let data = formData form in
      if falsy (data ''firstName'') \<or> falsy (data ''lastName'')
         \<or> falsy (data ''email'') \<or> falsy (data ''message'')
      then legacy_showToast (js ''Error'') (js ''Please fill in all required fields.'')
             (js ''error'') s
      else if \<not> emailRegex_test (toString (data ''email''))
      then legacy_showToast (js ''Error'') (js ''Please enter a valid email address.'')
             (js ''error'') s
      else
        (case submitButton form of
           None \<Rightarrow> (Inl TypeError, s)
         | Some b \<Rightarrow>
             let originalText = textContent b;
                 b1 = b\<lparr> textContent := js ''Sending...'', disabled := True \<rparr>;
                 s1 = s\<lparr> contactForm := Some (form\<lparr> submitButton := Some b1 \<rparr>) \<rparr>
             in (Inr (), setTimeout (LegacySettle data originalText) 1000 s1)))"

definition legacy_settle :: "formdata \<Rightarrow> jsstring \<Rightarrow> handler" where
  "legacy_settle data originalText s =
     (let s1 = restoreButton originalText (formReset s)
      in case legacy_showToast (js ''Success'')
                (js ''Your message has been sent successfully! We'' @ [0x27]
                   @ js ''ll get back to you soon.'')
                (js ''success'') s1 of
           (Inl err, s2) \<Rightarrow> (Inl err, s2)
         | (Inr u, s2) \<Rightarrow>
             (Inr (), s2\<lparr> console := console s2
                            @ [ConsoleLog (js ''Contact form submission:'')
                                 (data(''timestamp'' := None)) (Some (now s2))] \<rparr>))"

subsection \<open>The event loop\<close>

text \<open>
  The browser's side: time passes, a due timer runs its callback, and events reach the
  listeners that \<open>bindEvents\<close> registered. \<open>Fire i\<close> runs the \<open>i\<close>-th pending timer
  if it is due, so a trace decides how late and in which order due timers run.
  \<open>Input name v\<close> is the user typing \<open>v\<close> into the control \<open>name\<close> of the contact
  form. An exception that leaves a handler is reported by the browser and the loop
  goes on.
\<close>

datatype event =
    Elapse nat
  | Fire nat
  | Scroll int
  | Input string jsstring
  | Submit
  | KeyDown jsstring
  | ClickToggle
  | ClickClose
  | ClickOverlay bool
  | ClickMobileNavLink

fun run_callback :: "callback \<Rightarrow> handler" where
  "run_callback HideToast s = (Inr (), hideToast s)"
| "run_callback ClearThrottle s = (Inr (), s\<lparr> inThrottle := False \<rparr>)"
| "run_callback (ResumeSubmit data originalButtonText) s =
     resumeSubmit data originalButtonText s"
| "run_callback (LegacySettle data originalText) s = legacy_settle data originalText s"

definition userInput :: "string \<Rightarrow> jsstring \<Rightarrow> page \<Rightarrow> page" where
  "userInput name v s =
     s\<lparr> contactForm :=
          map_option
            (\<lambda>form. form\<lparr> controls :=
                 (controls form)(name := map_option (\<lambda>c. c\<lparr> cvalue := v \<rparr>)
                                           (controls form name)) \<rparr>)
            (contactForm s) \<rparr>"

definition bound :: "listener \<Rightarrow> page \<Rightarrow> bool" where
  "bound l s = List.member (listeners s) l"

fun step :: "event \<Rightarrow> page \<Rightarrow> page" where
  "step (Elapse dt) s = s\<lparr> now := now s + dt \<rparr>"
| "step (Fire i) s =
     (if i < length (timers s) \<and> fst (timers s ! i) \<le> now s
      then snd (run_callback (snd (timers s ! i))
                  (s\<lparr> timers := take i (timers s) @ drop (Suc i) (timers s) \<rparr>))
      else s)"
| "step (Scroll y) s =
     (let s1 = s\<lparr> scrollY := y \<rparr>
      in if bound OnScroll s1 then snd (throttledScrollHandler s1) else s1)"
| "step (Input name v) s = userInput name v s"
| "step Submit s =
     (case contactForm s of
        None \<Rightarrow> s
      | Some form \<Rightarrow> if bound OnFormSubmit s then snd (handleFormSubmit form s) else s)"
| "step (KeyDown key) s = (if bound OnKeydown s then snd (handleKeyboard key s) else s)"
| "step ClickToggle s = (if bound OnToggleClick s then toggleMobileMenu True s else s)"
| "step ClickClose s = (if bound OnCloseClick s then toggleMobileMenu False s else s)"
| "step (ClickOverlay on_backdrop) s =
     (if bound OnOverlayClick s \<and> on_backdrop then toggleMobileMenu False s else s)"
| "step ClickMobileNavLink s =
     (if bound OnMobileNavLinkClick s then toggleMobileMenu False s else s)"

fun run :: "event list \<Rightarrow> page \<Rightarrow> page" where
  "run [] s = s"
| "run (e # es) s = run es (step e s)"

section \<open>Auxiliary notions for the proofs\<close>

text \<open>What one code unit must satisfy to be in the class \<^verbatim>\<open>[^\sa]\<close>.\<close>

definition class_ok :: "cu \<Rightarrow> cu \<Rightarrow> bool" where
  "class_ok a c = (\<not> isWhiteSpace c \<and> c \<noteq> a)"

text \<open>One of the four required fields is missing or empty.\<close>

definition anyRequiredEmpty :: "formdata \<Rightarrow> bool" where
  "anyRequiredEmpty data =
     (falsy (data ''firstName'') \<or> falsy (data ''lastName'')
      \<or> falsy (data ''email'') \<or> falsy (data ''message''))"

text \<open>Consecutive times are at least \<open>limit\<close> apart.\<close>

fun spaced :: "nat \<Rightarrow> nat list \<Rightarrow> bool" where
  "spaced limit [] = True"
| "spaced limit [t] = True"
| "spaced limit (t # u # ts) = (t + limit \<le> u \<and> spaced limit (u # ts))"

fun isClearThrottle :: "nat \<times> callback \<Rightarrow> bool" where
  "isClearThrottle (due, ClearThrottle) = True"
| "isClearThrottle (due, cb) = False"

text \<open>
  What a handler other than the scroll handler leaves alone: the throttle flag, the
  record of scroll calls, the header, the clock, the listeners and the pending
  throttle timers.
\<close>

definition untouched :: "page \<Rightarrow> page \<Rightarrow> bool" where
  "untouched s s' =
     (inThrottle s' = inThrottle s \<and> scrollCalls s' = scrollCalls s
      \<and> header s' = header s \<and> now s' = now s \<and> listeners s' = listeners s
      \<and> filter isClearThrottle (timers s') = filter isClearThrottle (timers s))"

text \<open>
  The invariant of the throttle: inside a window exactly one throttle timer is pending,
  due no earlier than \<open>limit\<close> after the last call; outside a window none is pending
  and the last call is at least \<open>limit\<close> old.
\<close>

definition throttle_inv :: "page \<Rightarrow> bool" where
  "throttle_inv s =
     (header s \<noteq> None
      \<and> spaced scrollThrottleLimit (map fst (scrollCalls s))
      \<and> (if inThrottle s
         then scrollCalls s \<noteq> []
              \<and> (\<exists>due. filter isClearThrottle (timers s) = [(due, ClearThrottle)]
                     \<and> fst (last (scrollCalls s)) + scrollThrottleLimit \<le> due)
         else filter isClearThrottle (timers s) = []
              \<and> (scrollCalls s = []
                  \<or> fst (last (scrollCalls s)) + scrollThrottleLimit \<le> now s)))"

text \<open>The toast element after a successful \<open>showToast\<close>.\<close>

definition displayed :: "toast_args \<Rightarrow> toast_el \<Rightarrow> toast_el" where
  "displayed args t =
     t\<lparr> toastTitle := Some (title args),
        toastDescription := Some (message args),
        toastType := Some (case type' args of None \<Rightarrow> js ''success'' | Some ty \<Rightarrow> ty),
        shown := True \<rparr>"

text \<open>Every control of the form is empty; every control has an empty default.\<close>

definition cleared :: "form_el \<Rightarrow> bool" where
  "cleared form =
     (\<forall>name. case controls form name of None \<Rightarrow> True | Some c \<Rightarrow> cvalue c = [])"

definition noDefaults :: "form_el \<Rightarrow> bool" where
  "noDefaults form =
     (\<forall>name. case controls form name of None \<Rightarrow> True | Some c \<Rightarrow> defaultValue c = [])"

text \<open>A console entry that carries a timestamp.\<close>

fun stamped :: "log_entry \<Rightarrow> bool" where
  "stamped (ConsoleLog label data ts) = (ts \<noteq> None)"
| "stamped (ConsoleError label err) = False"

text \<open>
  The page without the \<^verbatim>\<open>service\<close> field: the control is taken out of the form, and
  the key out of the data that pending callbacks and console entries hold. Two pages
  with the same image differ in nothing but the service field.
\<close>

definition erase_data :: "formdata \<Rightarrow> formdata" where
  "erase_data data = data(''service'' := None)"

definition erase_form :: "form_el \<Rightarrow> form_el" where
  "erase_form form = form\<lparr> controls := (controls form)(''service'' := None) \<rparr>"

fun erase_callback :: "callback \<Rightarrow> callback" where
  "erase_callback (ResumeSubmit data t) = ResumeSubmit (erase_data data) t"
| "erase_callback (LegacySettle data t) = LegacySettle (erase_data data) t"
| "erase_callback HideToast = HideToast"
| "erase_callback ClearThrottle = ClearThrottle"

fun erase_entry :: "log_entry \<Rightarrow> log_entry" where
  "erase_entry (ConsoleLog label data ts) = ConsoleLog label (erase_data data) ts"
| "erase_entry (ConsoleError label err) = ConsoleError label err"

definition without_service :: "page \<Rightarrow> page" where
  "without_service s =
     s\<lparr> contactForm := map_option erase_form (contactForm s),
        timers := map (\<lambda>p. (fst p, erase_callback (snd p))) (timers s),
        console := map erase_entry (console s) \<rparr>"

section \<open>Concrete inputs\<close>

definition demo_form :: form_el where
  "demo_form =
     \<lparr> controls = (\<lambda>name. None)
         (''firstName'' \<mapsto> \<lparr> cvalue = js ''Ada'', defaultValue = [] \<rparr>,
          ''lastName'' \<mapsto> \<lparr> cvalue = js ''Byron'', defaultValue = [] \<rparr>,
          ''email'' \<mapsto> \<lparr> cvalue = js ''a@b.co'', defaultValue = [] \<rparr>,
          ''service'' \<mapsto> \<lparr> cvalue = js ''web'', defaultValue = [] \<rparr>,
          ''message'' \<mapsto> \<lparr> cvalue = js ''Hello'', defaultValue = [] \<rparr>),
       submitButton = Some \<lparr> textContent = js ''Send Message'', disabled = False \<rparr> \<rparr>"

definition demo_toast :: toast_el where
  "demo_toast =
     \<lparr> toastTitle = Some [], toastDescription = Some [],
       toastIcon = Some \<lparr> className = [], color = [] \<rparr>,
       toastType = None, shown = False \<rparr>"

definition demo_document :: document where
  "demo_document =
     \<lparr> doc_header = Some \<lparr> scrolled = False \<rparr>,
       doc_mobileMenuToggle = True,
       doc_mobileMenuOverlay = True,
       doc_mobileMenuClose = True,
       doc_contactForm = Some demo_form,
       doc_toast = Some demo_toast,
       doc_heroBackground = Some \<lparr> parallaxOf = None \<rparr>,
       doc_navLinks = 2,
       doc_mobileNavLinks = 1,
       doc_animatedElements = [\<lparr> isVisible = False, observed = False \<rparr>] \<rparr>"

text \<open>The page after \<open>init\<close> on the full document.\<close>

definition demo_page :: page where
  "demo_page = snd (init demo_document App)"

section \<open>Properties\<close>

subsection \<open>The e-mail pattern\<close>

lemma matches_Once_Lit:
  "matches ((Lit a, Once) # ps) s = (\<exists>v. s = a # v \<and> matches ps v)"
  by (cases s) auto

lemma matches_OneOrMore_class:
  "matches ((NotSpaceNor a, OneOrMore) # ps) s =
     (\<exists>u v. s = u @ v \<and> u \<noteq> [] \<and> list_all (class_ok a) u \<and> matches ps v)"
proof (induction s)
  case Nil
  then show ?case by simp
next
  case (Cons c cs)
  show ?case
  proof
    assume m: "matches ((NotSpaceNor a, OneOrMore) # ps) (c # cs)"
    then have ok: "class_ok a c" by (simp add: class_ok_def)
    from m have "matches ((NotSpaceNor a, OneOrMore) # ps) cs \<or> matches ps cs" by simp
    then show "\<exists>u v. c # cs = u @ v \<and> u \<noteq> [] \<and> list_all (class_ok a) u \<and> matches ps v"
    proof
      assume "matches ((NotSpaceNor a, OneOrMore) # ps) cs"
      with Cons.IH obtain u v where "cs = u @ v" "list_all (class_ok a) u" "matches ps v"
        by blast
      with ok have "c # cs = (c # u) @ v \<and> c # u \<noteq> [] \<and> list_all (class_ok a) (c # u) \<and> matches ps v"
        by simp
      then show ?thesis by blast
    next
      assume "matches ps cs"
      with ok have "c # cs = [c] @ cs \<and> [c] \<noteq> [] \<and> list_all (class_ok a) [c] \<and> matches ps cs"
        by simp
      then show ?thesis by blast
    qed
  next
    assume "\<exists>u v. c # cs = u @ v \<and> u \<noteq> [] \<and> list_all (class_ok a) u \<and> matches ps v"
    then obtain u v where uv: "c # cs = u @ v" "u \<noteq> []" "list_all (class_ok a) u" "matches ps v"
      by blast
    then obtain u' where u: "u = c # u'" by (cases u) auto
    with uv have ok: "class_ok a c" and cs: "cs = u' @ v" and all: "list_all (class_ok a) u'"
      by auto
    show "matches ((NotSpaceNor a, OneOrMore) # ps) (c # cs)"
    proof (cases "u' = []")
      case True
      with cs uv ok show ?thesis by (simp add: class_ok_def)
    next
      case False
      with cs all uv have "matches ((NotSpaceNor a, OneOrMore) # ps) cs"
        using Cons.IH by blast
      with ok show ?thesis by (simp add: class_ok_def)
    qed
  qed
qed

lemma matches_end_class:
  "matches [(NotSpaceNor a, OneOrMore)] s = (s \<noteq> [] \<and> list_all (class_ok a) s)"
  by (simp add: matches_OneOrMore_class)

lemma emailRegex_test_parts:
  "emailRegex_test s =
     (\<exists>l d t. s = l @ [at_sign] @ d @ [full_stop] @ t
        \<and> l \<noteq> [] \<and> d \<noteq> [] \<and> t \<noteq> []
        \<and> list_all (class_ok at_sign) l \<and> list_all (class_ok at_sign) d
        \<and> list_all (class_ok at_sign) t)"
proof
  assume "emailRegex_test s"
  then obtain l v1 where 1: "s = l @ v1" "l \<noteq> []" "list_all (class_ok at_sign) l"
      "matches [(Lit at_sign, Once), (NotSpaceNor at_sign, OneOrMore),
                (Lit full_stop, Once), (NotSpaceNor at_sign, OneOrMore)] v1"
    unfolding emailRegex_test_def emailRegex_def matches_OneOrMore_class by blast
  then obtain v2 where 2: "v1 = at_sign # v2"
      "matches [(NotSpaceNor at_sign, OneOrMore), (Lit full_stop, Once),
                (NotSpaceNor at_sign, OneOrMore)] v2"
    unfolding matches_Once_Lit by blast
  then obtain d v3 where 3: "v2 = d @ v3" "d \<noteq> []" "list_all (class_ok at_sign) d"
      "matches [(Lit full_stop, Once), (NotSpaceNor at_sign, OneOrMore)] v3"
    unfolding matches_OneOrMore_class by blast
  then obtain t where 4: "v3 = full_stop # t" "matches [(NotSpaceNor at_sign, OneOrMore)] t"
    unfolding matches_Once_Lit by blast
  from 4 have 5: "t \<noteq> []" "list_all (class_ok at_sign) t"
    by (simp_all add: matches_end_class)
  from 1 2 3 4 have "s = l @ [at_sign] @ d @ [full_stop] @ t" by simp
  with 1 3 5 show "\<exists>l d t. s = l @ [at_sign] @ d @ [full_stop] @ t
        \<and> l \<noteq> [] \<and> d \<noteq> [] \<and> t \<noteq> []
        \<and> list_all (class_ok at_sign) l \<and> list_all (class_ok at_sign) d
        \<and> list_all (class_ok at_sign) t" by blast
next
  assume "\<exists>l d t. s = l @ [at_sign] @ d @ [full_stop] @ t
        \<and> l \<noteq> [] \<and> d \<noteq> [] \<and> t \<noteq> []
        \<and> list_all (class_ok at_sign) l \<and> list_all (class_ok at_sign) d
        \<and> list_all (class_ok at_sign) t"
  then obtain l d t where p: "s = l @ [at_sign] @ d @ [full_stop] @ t"
      "l \<noteq> []" "d \<noteq> []" "t \<noteq> []" "list_all (class_ok at_sign) l"
      "list_all (class_ok at_sign) d" "list_all (class_ok at_sign) t"
    by blast
  from p have a: "matches [(NotSpaceNor at_sign, OneOrMore)] t"
    by (simp add: matches_end_class)
  then have b: "matches [(Lit full_stop, Once), (NotSpaceNor at_sign, OneOrMore)] (full_stop # t)"
    by simp
  with p have c: "matches [(NotSpaceNor at_sign, OneOrMore), (Lit full_stop, Once),
                (NotSpaceNor at_sign, OneOrMore)] (d @ full_stop # t)"
    unfolding matches_OneOrMore_class [of _ "[(Lit full_stop, Once), (NotSpaceNor at_sign, OneOrMore)]"]
    by blast
  then have e: "matches [(Lit at_sign, Once), (NotSpaceNor at_sign, OneOrMore), (Lit full_stop, Once),
                (NotSpaceNor at_sign, OneOrMore)] (at_sign # d @ full_stop # t)"
    by simp
  have "matches emailRegex (l @ at_sign # d @ full_stop # t)"
    unfolding emailRegex_def
      matches_OneOrMore_class [of _ "[(Lit at_sign, Once), (NotSpaceNor at_sign, OneOrMore), (Lit full_stop, Once),
                (NotSpaceNor at_sign, OneOrMore)]"]
    using p e by blast
  with p show "emailRegex_test s" by (simp add: emailRegex_test_def)
qed

lemma at_sign_not_space: "\<not> isWhiteSpace at_sign" "\<not> isWhiteSpace full_stop" "full_stop \<noteq> at_sign"
  by (simp_all add: isWhiteSpace_def at_sign_def full_stop_def)

lemma class_ok_all:
  "list_all (class_ok a) u = (count_list u a = 0 \<and> \<not> list_ex isWhiteSpace u)"
  by (induction u) (auto simp: class_ok_def)

lemma emailRegex_test_spec: "emailRegex_test s = spec_local_at_domain_tld s"
proof
  assume "emailRegex_test s"
  then obtain l d t where p: "s = l @ [at_sign] @ d @ [full_stop] @ t"
      "l \<noteq> []" "d \<noteq> []" "t \<noteq> []" "list_all (class_ok at_sign) l"
      "list_all (class_ok at_sign) d" "list_all (class_ok at_sign) t"
    unfolding emailRegex_test_parts by blast
  then have "count_list s at_sign = 1" "\<not> list_ex isWhiteSpace s"
    using at_sign_not_space
    by (simp_all add: class_ok_all)
  with p show "spec_local_at_domain_tld s"
    unfolding spec_local_at_domain_tld_def by blast
next
  assume "spec_local_at_domain_tld s"
  then obtain l d t where p: "s = l @ [at_sign] @ d @ [full_stop] @ t"
      "l \<noteq> []" "d \<noteq> []" "t \<noteq> []" "count_list s at_sign = 1" "\<not> list_ex isWhiteSpace s"
    unfolding spec_local_at_domain_tld_def by blast
  then have "list_all (class_ok at_sign) l" "list_all (class_ok at_sign) d"
      "list_all (class_ok at_sign) t"
    using at_sign_not_space
    by (simp_all add: class_ok_all)
  with p show "emailRegex_test s"
    unfolding emailRegex_test_parts by blast
qed

lemmas email_eval =
  emailRegex_test_def emailRegex_def js_def isWhiteSpace_def at_sign_def full_stop_def

text \<open>
  Claim C5. The e-mail test of the submit handler accepts \<^verbatim>\<open>a@b.co\<close>, rejects
  \<^verbatim>\<open>a@b\<close> (no full stop after the at sign) and \<^verbatim>\<open>a b@c.com\<close> (white space), and in
  general accepts exactly the strings of the shape local@domain.tld: three non-empty
  parts, one at sign, a full stop after it, no white space.
\<close>

theorem email_validator_accepts_local_at_domain_tld:
  "emailRegex_test (js ''a@b.co'')
   \<and> \<not> emailRegex_test (js ''a@b'')
   \<and> \<not> emailRegex_test (js ''a b@c.com'')
   \<and> (\<forall>s. emailRegex_test s = spec_local_at_domain_tld s)"
proof -
  have "emailRegex_test (js ''a@b.co'')" by (simp add: email_eval)
  moreover have "\<not> emailRegex_test (js ''a@b'')" by (simp add: email_eval)
  moreover have "\<not> emailRegex_test (js ''a b@c.com'')" by (simp add: email_eval)
  ultimately show ?thesis using emailRegex_test_spec by blast
qed

subsection \<open>What the other handlers leave alone\<close>

lemma untouched_refl: "untouched s s"
  by (simp add: untouched_def)

lemma untouched_trans: "untouched s s1 \<Longrightarrow> untouched s1 s2 \<Longrightarrow> untouched s s2"
  by (simp add: untouched_def)

lemma untouched_showToast: "untouched s (snd (showToast args s))"
  by (simp add: showToast_def untouched_def setTimeout_def Let_def split: option.splits)

lemma untouched_legacy_showToast: "untouched s (snd (legacy_showToast a b c s))"
  by (simp add: legacy_showToast_def untouched_def setTimeout_def Let_def split: option.splits)

lemma untouched_hideToast: "untouched s (hideToast s)"
  by (simp add: hideToast_def untouched_def)

lemma untouched_toggleMobileMenu: "untouched s (toggleMobileMenu b s)"
  by (simp add: toggleMobileMenu_def untouched_def)

lemma untouched_handleKeyboard: "untouched s (snd (handleKeyboard key s))"
  by (simp add: handleKeyboard_def untouched_def hideToast_def toggleMobileMenu_def Let_def
      split: option.splits)

lemma untouched_restoreButton: "untouched s (restoreButton t s)"
  by (simp add: restoreButton_def untouched_def)

lemma untouched_formReset: "untouched s (formReset s)"
  by (simp add: formReset_def untouched_def)

lemma untouched_userInput: "untouched s (userInput name v s)"
  by (simp add: userInput_def untouched_def)

lemma untouched_console: "untouched s (s\<lparr> console := c \<rparr>)"
  by (simp add: untouched_def)

lemma untouched_submit_timer:
  "untouched s (setTimeout (ResumeSubmit d t) 1000 (s\<lparr> contactForm := f \<rparr>))"
  "untouched s (setTimeout (LegacySettle d t) 1000 (s\<lparr> contactForm := f \<rparr>))"
  by (simp_all add: untouched_def setTimeout_def)

lemma untouched_handleFormSubmit: "untouched s (snd (handleFormSubmit form s))"
  by (simp add: handleFormSubmit_def Let_def untouched_showToast untouched_submit_timer
      untouched_refl split: option.splits)

lemma untouched_legacy_submit: "untouched s (snd (legacy_submit form s))"
  by (simp add: legacy_submit_def Let_def untouched_legacy_showToast untouched_submit_timer
      untouched_refl split: option.splits)

lemma untouched_resumeSubmit: "untouched s (snd (resumeSubmit d t s))"
proof -
  let ?s1 = "s\<lparr> console := console s @ [ConsoleLog (js ''Form Submitted:'') d None] \<rparr>"
  have 1: "untouched s ?s1" by (rule untouched_console)
  obtain r s2 where r: "showToast successToast ?s1 = (r, s2)" by (cases "showToast successToast ?s1")
  then have 2: "untouched ?s1 s2" using untouched_showToast [of ?s1 successToast] by simp
  show ?thesis
  proof (cases r)
    case (Inr u)
    have "untouched s2 (restoreButton t (formReset s2))"
      by (rule untouched_trans [OF untouched_formReset untouched_restoreButton])
    with 1 2 have "untouched s (restoreButton t (formReset s2))"
      by (blast intro: untouched_trans)
    with r Inr show ?thesis by (simp add: resumeSubmit_def)
  next
    case (Inl err)
    let ?s3 = "s2\<lparr> console := console s2 @ [ConsoleError (js ''Form submission error:'') err] \<rparr>"
    obtain r4 s4 where r4: "showToast failureToast ?s3 = (r4, s4)" by (cases "showToast failureToast ?s3")
    then have "untouched ?s3 s4" using untouched_showToast [of ?s3 failureToast] by simp
    moreover have "untouched s2 ?s3" by (rule untouched_console)
    moreover have "untouched s4 (restoreButton t s4)" by (rule untouched_restoreButton)
    ultimately have "untouched s (restoreButton t s4)"
      using 1 2 by (blast intro: untouched_trans)
    with r Inl r4 show ?thesis by (simp add: resumeSubmit_def)
  qed
qed

lemma untouched_legacy_settle: "untouched s (snd (legacy_settle d t s))"
proof -
  let ?s1 = "restoreButton t (formReset s)"
  let ?msg = "js ''Your message has been sent successfully! We'' @ [0x27] @ js ''ll get back to you soon.''"
  have 1: "untouched s ?s1"
    by (rule untouched_trans [OF untouched_formReset untouched_restoreButton])
  obtain r s2 where r: "legacy_showToast (js ''Success'') ?msg (js ''success'') ?s1 = (r, s2)"
    by (cases "legacy_showToast (js ''Success'') ?msg (js ''success'') ?s1")
  then have 2: "untouched ?s1 s2"
    using untouched_legacy_showToast [of ?s1 "js ''Success''" ?msg "js ''success''"] by simp
  with 1 have 3: "untouched s s2" by (rule untouched_trans)
  show ?thesis
  proof (cases r)
    case (Inl err)
    with r 3 show ?thesis by (simp add: legacy_settle_def)
  next
    case (Inr u)
    have "untouched s2 (s2\<lparr> console := console s2 @ [ConsoleLog (js ''Contact form submission:'')
                                 (d(''timestamp'' := None)) (Some (now s2))] \<rparr>)"
      by (rule untouched_console)
    with 3 have "untouched s (s2\<lparr> console := console s2 @ [ConsoleLog (js ''Contact form submission:'')
                                 (d(''timestamp'' := None)) (Some (now s2))] \<rparr>)"
      by (rule untouched_trans)
    with r Inr show ?thesis by (simp add: legacy_settle_def)
  qed
qed

subsection \<open>The throttle\<close>

lemma spaced_snoc:
  "spaced limit (ts @ [t]) = (spaced limit ts \<and> (ts = [] \<or> last ts + limit \<le> t))"
  by (induction limit ts rule: spaced.induct) auto

lemma filter_without_nth:
  assumes "i < length xs"
  shows "filter P xs =
           filter P (take i xs) @ (if P (xs ! i) then [xs ! i] else [])
             @ filter P (drop (Suc i) xs)"
proof -
  from assms have "xs = take i xs @ xs ! i # drop (Suc i) xs"
    by (rule id_take_nth_drop)
  then have "filter P xs = filter P (take i xs @ xs ! i # drop (Suc i) xs)"
    by simp
  then show ?thesis by simp
qed

lemma isClearThrottle_iff: "isClearThrottle p = (snd p = ClearThrottle)"
  by (cases p rule: isClearThrottle.cases) auto

lemma throttle_inv_untouched:
  "throttle_inv s \<Longrightarrow> untouched s s' \<Longrightarrow> throttle_inv s'"
  by (simp add: throttle_inv_def untouched_def)

lemma untouched_run_callback:
  "cb \<noteq> ClearThrottle \<Longrightarrow> untouched s (snd (run_callback cb s))"
  by (cases cb) (simp_all add: untouched_hideToast untouched_resumeSubmit untouched_legacy_settle)

lemma throttle_inv_Elapse: "throttle_inv s \<Longrightarrow> throttle_inv (step (Elapse dt) s)"
  by (auto simp: throttle_inv_def)

lemma throttle_inv_Fire:
  assumes inv: "throttle_inv s"
  shows "throttle_inv (step (Fire i) s)"
proof (cases "i < length (timers s) \<and> fst (timers s ! i) \<le> now s")
  case False
  with inv show ?thesis by auto
next
  case True
  let ?rest = "take i (timers s) @ drop (Suc i) (timers s)"
  let ?s1 = "s\<lparr> timers := ?rest \<rparr>"
  obtain due cb where t: "timers s ! i = (due, cb)" by (cases "timers s ! i")
  from True have split: "filter isClearThrottle (timers s) =
      filter isClearThrottle (take i (timers s))
        @ (if isClearThrottle (timers s ! i) then [timers s ! i] else [])
        @ filter isClearThrottle (drop (Suc i) (timers s))"
    using filter_without_nth [of i "timers s" isClearThrottle] by simp
  show ?thesis
  proof (cases "cb = ClearThrottle")
    case False
    with t split have "filter isClearThrottle ?rest = filter isClearThrottle (timers s)"
      by (simp add: isClearThrottle_iff)
    then have "untouched s ?s1" by (simp add: untouched_def)
    moreover from False have "untouched ?s1 (snd (run_callback cb ?s1))"
      by (rule untouched_run_callback)
    ultimately have "untouched s (snd (run_callback cb ?s1))" by (rule untouched_trans)
    with inv have "throttle_inv (snd (run_callback cb ?s1))" by (rule throttle_inv_untouched)
    with True t show ?thesis by simp
  next
    case ct: True
    with t split have f: "filter isClearThrottle (timers s) =
        filter isClearThrottle (take i (timers s)) @ [(due, ClearThrottle)]
          @ filter isClearThrottle (drop (Suc i) (timers s))"
      by simp
    with inv have thr: "inThrottle s"
      by (auto simp: throttle_inv_def split: if_splits)
    with inv obtain d' where d': "filter isClearThrottle (timers s) = [(d', ClearThrottle)]"
        "fst (last (scrollCalls s)) + scrollThrottleLimit \<le> d'" "scrollCalls s \<noteq> []"
      by (auto simp: throttle_inv_def)
    from f d' have e: "filter isClearThrottle (take i (timers s)) = []"
        "filter isClearThrottle (drop (Suc i) (timers s)) = []" "d' = due"
      by (auto simp: append_eq_Cons_conv Cons_eq_append_conv)
    from True t have "due \<le> now s" by simp
    with d' e have "fst (last (scrollCalls s)) + scrollThrottleLimit \<le> now s" by simp
    with inv e have "throttle_inv (s\<lparr> timers := ?rest, inThrottle := False \<rparr>)"
      by (simp add: throttle_inv_def)
    with True t ct show ?thesis by simp
  qed
qed

lemma throttle_inv_handler:
  assumes inv: "throttle_inv s"
  shows "throttle_inv (snd (throttledScrollHandler s))"
proof (cases "inThrottle s")
  case True
  with inv show ?thesis by (simp add: throttledScrollHandler_def throttle_def)
next
  case False
  from inv obtain h where h: "header s = Some h" by (auto simp: throttle_inv_def)
  have "spaced scrollThrottleLimit (map fst (scrollCalls s) @ [now s])"
  proof (cases "scrollCalls s = []")
    case True
    then show ?thesis by simp
  next
    case ne: False
    then have "last (map fst (scrollCalls s)) = fst (last (scrollCalls s))"
      by (rule last_map)
    with inv False ne show ?thesis
      by (simp add: throttle_inv_def spaced_snoc)
  qed
  with inv False h show ?thesis
    by (simp add: throttledScrollHandler_def throttle_def handleScroll_def Let_def
        setTimeout_def throttle_inv_def split: option.splits)
qed

lemma throttle_inv_scrollY: "throttle_inv s \<Longrightarrow> throttle_inv (s\<lparr> scrollY := y \<rparr>)"
  by (simp add: throttle_inv_def)

lemma throttle_inv_step: "throttle_inv s \<Longrightarrow> throttle_inv (step e s)"
proof (cases e)
  case (Elapse dt)
  assume "throttle_inv s"
  then show ?thesis unfolding Elapse by (rule throttle_inv_Elapse)
next
  case (Fire i)
  assume "throttle_inv s"
  then show ?thesis unfolding Fire by (rule throttle_inv_Fire)
next
  case (Scroll y)
  assume "throttle_inv s"
  then have "throttle_inv (s\<lparr> scrollY := y \<rparr>)" by (rule throttle_inv_scrollY)
  then show ?thesis unfolding Scroll
    using throttle_inv_handler [of "s\<lparr> scrollY := y \<rparr>"] by (simp add: Let_def)
next
  case (Input name v)
  assume "throttle_inv s"
  then show ?thesis unfolding Input
    using throttle_inv_untouched [OF _ untouched_userInput] by simp
next
  case Submit
  assume "throttle_inv s"
  then show ?thesis unfolding Submit
    using throttle_inv_untouched [OF _ untouched_handleFormSubmit]
    by (simp split: option.splits)
next
  case (KeyDown key)
  assume "throttle_inv s"
  then show ?thesis unfolding KeyDown
    using throttle_inv_untouched [OF _ untouched_handleKeyboard] by simp
next
  case ClickToggle
  assume "throttle_inv s"
  then show ?thesis unfolding ClickToggle
    using throttle_inv_untouched [OF _ untouched_toggleMobileMenu] by simp
next
  case ClickClose
  assume "throttle_inv s"
  then show ?thesis unfolding ClickClose
    using throttle_inv_untouched [OF _ untouched_toggleMobileMenu] by simp
next
  case (ClickOverlay b)
  assume "throttle_inv s"
  then show ?thesis unfolding ClickOverlay
    using throttle_inv_untouched [OF _ untouched_toggleMobileMenu] by simp
next
  case ClickMobileNavLink
  assume "throttle_inv s"
  then show ?thesis unfolding ClickMobileNavLink
    using throttle_inv_untouched [OF _ untouched_toggleMobileMenu] by simp
qed

lemma throttle_inv_run: "throttle_inv s \<Longrightarrow> throttle_inv (run evs s)"
  by (induction evs arbitrary: s) (simp_all add: throttle_inv_step)

lemma untouched_inThrottle: "untouched s s' \<Longrightarrow> inThrottle s' = inThrottle s"
  by (simp add: untouched_def)

lemma window_ends_by_timer:
  assumes "inThrottle s" "\<not> inThrottle (step e s)"
  shows "\<exists>i due. e = Fire i \<and> i < length (timers s)
           \<and> timers s ! i = (due, ClearThrottle) \<and> due \<le> now s"
proof (cases e)
  case (Fire i)
  show ?thesis
  proof (cases "i < length (timers s) \<and> fst (timers s ! i) \<le> now s")
    case False
    with assms Fire show ?thesis by auto
  next
    case True
    let ?s1 = "s\<lparr> timers := take i (timers s) @ drop (Suc i) (timers s) \<rparr>"
    obtain due cb where t: "timers s ! i = (due, cb)" by (cases "timers s ! i")
    have "cb = ClearThrottle"
    proof (rule ccontr)
      assume "cb \<noteq> ClearThrottle"
      then have "inThrottle (snd (run_callback cb ?s1)) = inThrottle ?s1"
        using untouched_inThrottle [OF untouched_run_callback] by blast
      with assms Fire True t show False by simp
    qed
    with True t Fire show ?thesis by simp
  qed
next
  case (Scroll y)
  with assms show ?thesis
    by (simp add: Let_def throttledScrollHandler_def throttle_def split: if_splits)
next
  case (Input name v)
  with assms show ?thesis
    using untouched_inThrottle [OF untouched_userInput] by simp
next
  case Submit
  with assms show ?thesis
    using untouched_inThrottle [OF untouched_handleFormSubmit]
    by (simp split: option.splits if_splits)
next
  case (KeyDown key)
  with assms show ?thesis
    using untouched_inThrottle [OF untouched_handleKeyboard]
    by (simp split: if_splits)
qed (use assms in \<open>simp_all add: toggleMobileMenu_def split: if_splits\<close>)

lemma scroll_dropped:
  "inThrottle s \<Longrightarrow> step (Scroll y) s = s\<lparr> scrollY := y \<rparr>"
  by (simp add: Let_def throttledScrollHandler_def throttle_def)

lemma scroll_handled:
  assumes "\<not> inThrottle s" "bound OnScroll s" "header s = Some h"
  shows "scrollCalls (step (Scroll y) s) = scrollCalls s @ [(now s, y)]
         \<and> header (step (Scroll y) s) = Some (h\<lparr> scrolled := (y > headerScrollThreshold) \<rparr>)
         \<and> inThrottle (step (Scroll y) s)
         \<and> timers (step (Scroll y) s) = timers s @ [(now s + scrollThrottleLimit, ClearThrottle)]"
  using assms
  by (simp add: Let_def throttledScrollHandler_def throttle_def handleScroll_def setTimeout_def
      bound_def split: option.splits)

lemma throttle_inv_start:
  assumes "header s \<noteq> None" "\<not> inThrottle s" "filter isClearThrottle (timers s) = []"
    "scrollCalls s = []"
  shows "throttle_inv s"
  using assms by (simp add: throttle_inv_def)

text \<open>
  Claim C2. From a page with its header, outside a throttle window, any sequence of
  events runs the scroll handler at most once per window: consecutive calls are at
  least the throttle limit (16 ms) apart. A scroll event inside a window is dropped:
  it changes nothing but the scroll offset and queues nothing. A scroll event outside
  a window is handled on the offset it brings and opens a window. A window ends only
  when its timer runs, which is no earlier than its due time.
\<close>

theorem throttled_scroll_handler_once_per_window:
  assumes "header s \<noteq> None" and "\<not> inThrottle s"
    and "filter isClearThrottle (timers s) = []" and "scrollCalls s = []"
  shows "spaced scrollThrottleLimit (map fst (scrollCalls (run evs s)))
    \<and> (\<forall>s' y. inThrottle s' \<longrightarrow> step (Scroll y) s' = s'\<lparr> scrollY := y \<rparr>)
    \<and> (\<forall>s' y h. \<not> inThrottle s' \<and> bound OnScroll s' \<and> header s' = Some h \<longrightarrow>
          scrollCalls (step (Scroll y) s') = scrollCalls s' @ [(now s', y)]
          \<and> header (step (Scroll y) s') = Some (h\<lparr> scrolled := (y > headerScrollThreshold) \<rparr>)
          \<and> inThrottle (step (Scroll y) s')
          \<and> timers (step (Scroll y) s')
              = timers s' @ [(now s' + scrollThrottleLimit, ClearThrottle)])
    \<and> (\<forall>s' e. inThrottle s' \<and> \<not> inThrottle (step e s') \<longrightarrow>
          (\<exists>i due. e = Fire i \<and> i < length (timers s')
             \<and> timers s' ! i = (due, ClearThrottle) \<and> due \<le> now s'))"
proof -
  from assms have "throttle_inv s" by (rule throttle_inv_start)
  then have "throttle_inv (run evs s)" by (rule throttle_inv_run)
  then have "spaced scrollThrottleLimit (map fst (scrollCalls (run evs s)))"
    by (simp add: throttle_inv_def)
  moreover have "\<forall>s' y. inThrottle s' \<longrightarrow> step (Scroll y) s' = s'\<lparr> scrollY := y \<rparr>"
    using scroll_dropped by blast
  moreover have "\<forall>s' y h. \<not> inThrottle s' \<and> bound OnScroll s' \<and> header s' = Some h \<longrightarrow>
          scrollCalls (step (Scroll y) s') = scrollCalls s' @ [(now s', y)]
          \<and> header (step (Scroll y) s') = Some (h\<lparr> scrolled := (y > headerScrollThreshold) \<rparr>)
          \<and> inThrottle (step (Scroll y) s')
          \<and> timers (step (Scroll y) s')
              = timers s' @ [(now s' + scrollThrottleLimit, ClearThrottle)]"
    using scroll_handled by blast
  moreover have "\<forall>s' e. inThrottle s' \<and> \<not> inThrottle (step e s') \<longrightarrow>
          (\<exists>i due. e = Fire i \<and> i < length (timers s')
             \<and> timers s' ! i = (due, ClearThrottle) \<and> due \<le> now s')"
    using window_ends_by_timer by blast
  ultimately show ?thesis by blast
qed

subsection \<open>The demonstration page\<close>

lemmas init_eval =
  init_def bindEvents_def cacheDOMElements_def addEventListener_def addEventListeners_def
  setupObservers_def preloadAssets_def pageLoadAnimation_def App_def

lemma demo_page_eq:
  "demo_page =
     \<lparr> header = Some \<lparr> scrolled = False \<rparr>, mobileMenuToggle = True, mobileMenuOverlay = True,
       mobileMenuClose = True, contactForm = Some demo_form, toast = Some demo_toast,
       heroBackground = Some \<lparr> parallaxOf = None \<rparr>, navLinks = 2, mobileNavLinks = 1,
       animatedElements = [\<lparr> isVisible = False, observed = True \<rparr>],
       listeners = [OnToggleClick, OnCloseClick, OnOverlayClick, OnMobileNavLinkClick,
                    OnNavLinkClick, OnNavLinkClick, OnFormSubmit, OnScroll, OnKeydown],
       menuOpen = False, scrollY = 0, inThrottle = False, now = 0, timers = [],
       console = [], preloaded = 4, bodyOpacity = Some (js ''0''), fadeInRequested = True,
       scrollCalls = [] \<rparr>"
  by (simp add: demo_page_def demo_document_def init_eval numeral_2_eq_2)

theorem throttled_scroll_handler_witness:
  "header demo_page \<noteq> None \<and> \<not> inThrottle demo_page
   \<and> filter isClearThrottle (timers demo_page) = [] \<and> scrollCalls demo_page = []
   \<and> scrollCalls (run [Scroll 60, Elapse 5, Scroll 70, Elapse 11, Fire 0, Scroll 10, Scroll 20]
                    demo_page) = [(0, 60), (16, 10)]
   \<and> spaced scrollThrottleLimit
       (map fst (scrollCalls (run [Scroll 60, Elapse 5, Scroll 70, Elapse 11, Fire 0,
                                   Scroll 10, Scroll 20] demo_page)))"
proof -
  have h: "header demo_page \<noteq> None" "\<not> inThrottle demo_page"
    "filter isClearThrottle (timers demo_page) = []" "scrollCalls demo_page = []"
    by (simp_all add: demo_page_eq)
  have c: "scrollCalls (run [Scroll 60, Elapse 5, Scroll 70, Elapse 11, Fire 0, Scroll 10, Scroll 20]
                    demo_page) = [(0, 60), (16, 10)]"
    by (simp add: demo_page_eq Let_def throttledScrollHandler_def throttle_def handleScroll_def
        setTimeout_def bound_def scrollThrottleLimit_def headerScrollThreshold_def)
  from throttled_scroll_handler_once_per_window [OF h,
      of "[Scroll 60, Elapse 5, Scroll 70, Elapse 11, Fire 0, Scroll 10, Scroll 20]"]
  have "spaced scrollThrottleLimit
       (map fst (scrollCalls (run [Scroll 60, Elapse 5, Scroll 70, Elapse 11, Fire 0,
                                   Scroll 10, Scroll 20] demo_page)))"
    by blast
  with h c show ?thesis by blast
qed

subsection \<open>The form submission\<close>

lemma showToast_displayed:
  assumes "toast s = Some t" "toastTitle t \<noteq> None" "toastDescription t \<noteq> None"
  shows "showToast args s =
           (Inr (), s\<lparr> toast := Some (displayed args t),
                        timers := timers s @ [(now s + 5000, HideToast)] \<rparr>)"
  using assms
  by (auto simp: showToast_def displayed_def setTimeout_def Let_def split: option.splits)

lemma showToast_frame:
  "contactForm (snd (showToast args s)) = contactForm s
   \<and> console (snd (showToast args s)) = console s
   \<and> now (snd (showToast args s)) = now s
   \<and> (timers (snd (showToast args s)) = timers s
      \<or> timers (snd (showToast args s)) = timers s @ [(now s + 5000, HideToast)])"
  by (simp add: showToast_def setTimeout_def Let_def split: option.splits)

lemma handleFormSubmit_missing:
  "anyRequiredEmpty (formData form) \<Longrightarrow>
     handleFormSubmit form s = showToast missingFieldsToast s"
  by (simp add: handleFormSubmit_def anyRequiredEmpty_def Let_def)

lemma handleFormSubmit_invalid_email:
  "\<not> anyRequiredEmpty (formData form) \<Longrightarrow>
   \<not> emailRegex_test (toString (formData form ''email'')) \<Longrightarrow>
     handleFormSubmit form s = showToast invalidEmailToast s"
  by (simp add: handleFormSubmit_def anyRequiredEmpty_def Let_def)

lemma handleFormSubmit_valid:
  "\<not> anyRequiredEmpty (formData form) \<Longrightarrow>
   emailRegex_test (toString (formData form ''email'')) \<Longrightarrow>
   submitButton form = Some b \<Longrightarrow>
     handleFormSubmit form s =
       (Inr (), s\<lparr> contactForm :=
                      Some (form\<lparr> submitButton :=
                              Some (b\<lparr> textContent := js ''Sending...'', disabled := True \<rparr>) \<rparr>),
                    timers := timers s
                      @ [(now s + 1000, ResumeSubmit (formData form) (textContent b))] \<rparr>)"
  by (simp add: handleFormSubmit_def anyRequiredEmpty_def Let_def setTimeout_def)

text \<open>
  Claim C4. When one of the four required fields is missing or empty, the submit
  handler does one thing only: a single call of \<open>showToast\<close> with the error toast for
  missing fields. The form (its fields and its button) is as before, and no timer
  other than the toast's own is started, so the one-second delay never begins. On a
  page whose toast element has its two text children the call succeeds and the toast
  shows with type \<^verbatim>\<open>error\<close>.
\<close>

theorem missing_required_field_rejected:
  assumes "contactForm s = Some form" and "anyRequiredEmpty (formData form)"
  shows "handleFormSubmit form s = showToast missingFieldsToast s
    \<and> contactForm (snd (handleFormSubmit form s)) = Some form
    \<and> (timers (snd (handleFormSubmit form s)) = timers s
       \<or> timers (snd (handleFormSubmit form s)) = timers s @ [(now s + 5000, HideToast)])
    \<and> (\<forall>t. toast s = Some t \<and> toastTitle t \<noteq> None \<and> toastDescription t \<noteq> None \<longrightarrow>
          handleFormSubmit form s =
            (Inr (), s\<lparr> toast := Some (displayed missingFieldsToast t),
                         timers := timers s @ [(now s + 5000, HideToast)] \<rparr>)
          \<and> toastType (displayed missingFieldsToast t) = Some (js ''error'')
          \<and> shown (displayed missingFieldsToast t))"
proof -
  from assms(2) have eq: "handleFormSubmit form s = showToast missingFieldsToast s"
    by (rule handleFormSubmit_missing)
  moreover from assms(1) have "contactForm (snd (showToast missingFieldsToast s)) = Some form"
    by (simp add: showToast_frame)
  moreover have "timers (snd (showToast missingFieldsToast s)) = timers s
       \<or> timers (snd (showToast missingFieldsToast s)) = timers s @ [(now s + 5000, HideToast)]"
    using showToast_frame [of missingFieldsToast s] by blast
  moreover have "\<forall>t. toast s = Some t \<and> toastTitle t \<noteq> None \<and> toastDescription t \<noteq> None \<longrightarrow>
          showToast missingFieldsToast s =
            (Inr (), s\<lparr> toast := Some (displayed missingFieldsToast t),
                         timers := timers s @ [(now s + 5000, HideToast)] \<rparr>)
          \<and> toastType (displayed missingFieldsToast t) = Some (js ''error'')
          \<and> shown (displayed missingFieldsToast t)"
    by (simp add: showToast_displayed displayed_def missingFieldsToast_def)
  ultimately show ?thesis by simp
qed

lemmas form_eval =
  handleFormSubmit_def formData_def falsy_def toString_def anyRequiredEmpty_def
  showToast_def setTimeout_def displayed_def missingFieldsToast_def invalidEmailToast_def
  successToast_def failureToast_def resumeSubmit_def restoreButton_def formReset_def
  reset_def hideToast_def userInput_def bound_def Let_def

theorem missing_required_field_witness:
  "contactForm (step (Input ''message'' []) demo_page)
     = Some (demo_form\<lparr> controls := (controls demo_form)
               (''message'' \<mapsto> \<lparr> cvalue = [], defaultValue = [] \<rparr>) \<rparr>)
   \<and> anyRequiredEmpty (formData (demo_form\<lparr> controls := (controls demo_form)
               (''message'' \<mapsto> \<lparr> cvalue = [], defaultValue = [] \<rparr>) \<rparr>))
   \<and> contactForm (step Submit (step (Input ''message'' []) demo_page))
     = Some (demo_form\<lparr> controls := (controls demo_form)
               (''message'' \<mapsto> \<lparr> cvalue = [], defaultValue = [] \<rparr>) \<rparr>)
   \<and> timers (step Submit (step (Input ''message'' []) demo_page)) = [(5000, HideToast)]
   \<and> toast (step Submit (step (Input ''message'' []) demo_page))
     = Some (displayed missingFieldsToast demo_toast)"
proof -
  let ?form = "demo_form\<lparr> controls := (controls demo_form)
               (''message'' \<mapsto> \<lparr> cvalue = [], defaultValue = [] \<rparr>) \<rparr>"
  let ?s = "step (Input ''message'' []) demo_page"
  have h1: "contactForm ?s = Some ?form"
    by (simp add: demo_page_eq userInput_def demo_form_def)
  have h2: "anyRequiredEmpty (formData ?form)"
    by (simp add: anyRequiredEmpty_def formData_def falsy_def)
  have t: "toast ?s = Some demo_toast" "toastTitle demo_toast \<noteq> None"
    "toastDescription demo_toast \<noteq> None" "timers ?s = []" "now ?s = 0" "bound OnFormSubmit ?s"
    by (simp_all add: demo_page_eq userInput_def demo_toast_def bound_def)
  from missing_required_field_rejected [OF h1 h2] t
  have "handleFormSubmit ?form ?s =
            (Inr (), ?s\<lparr> toast := Some (displayed missingFieldsToast demo_toast),
                         timers := timers ?s @ [(now ?s + 5000, HideToast)] \<rparr>)"
    by blast
  with h1 t have "step Submit ?s = ?s\<lparr> toast := Some (displayed missingFieldsToast demo_toast),
                         timers := [(5000, HideToast)] \<rparr>"
    by simp
  with h1 h2 show ?thesis by simp
qed

lemma resumeSubmit_success:
  assumes "toast s = Some t" "toastTitle t \<noteq> None" "toastDescription t \<noteq> None"
  shows "resumeSubmit data originalButtonText s =
           (Inr (), restoreButton originalButtonText (formReset
              (s\<lparr> console := console s @ [ConsoleLog (js ''Form Submitted:'') data None],
                  toast := Some (displayed successToast t),
                  timers := timers s @ [(now s + 5000, HideToast)] \<rparr>)))"
proof -
  let ?s1 = "s\<lparr> console := console s @ [ConsoleLog (js ''Form Submitted:'') data None] \<rparr>"
  from assms have "showToast successToast ?s1 =
      (Inr (), ?s1\<lparr> toast := Some (displayed successToast t),
                    timers := timers ?s1 @ [(now ?s1 + 5000, HideToast)] \<rparr>)"
    by (intro showToast_displayed) simp_all
  then show ?thesis by (simp add: resumeSubmit_def)
qed

lemma noDefaults_reset: "noDefaults form \<Longrightarrow> cleared (reset form)"
  unfolding noDefaults_def cleared_def reset_def
proof
  fix name
  assume a: "\<forall>name. case controls form name of None \<Rightarrow> True | Some c \<Rightarrow> defaultValue c = []"
  then have "case controls form name of None \<Rightarrow> True | Some c \<Rightarrow> defaultValue c = []"
    by (rule spec)
  then show "case controls
                 (form\<lparr> controls := \<lambda>name. map_option (\<lambda>c. c\<lparr> cvalue := defaultValue c \<rparr>)
                                             (controls form name) \<rparr>) name of
               None \<Rightarrow> True | Some c \<Rightarrow> cvalue c = []"
    by (cases "controls form name") simp_all
qed

lemma resumeSubmit_button:
  assumes "contactForm s = Some form" "submitButton form = Some b"
  shows "\<exists>form'. contactForm (snd (resumeSubmit data originalButtonText s)) = Some form'
           \<and> submitButton form'
               = Some (b\<lparr> textContent := originalButtonText, disabled := False \<rparr>)"
proof -
  let ?s1 = "s\<lparr> console := console s @ [ConsoleLog (js ''Form Submitted:'') data None] \<rparr>"
  obtain r s2 where r: "showToast successToast ?s1 = (r, s2)"
    by (cases "showToast successToast ?s1")
  then have c2: "contactForm s2 = contactForm ?s1"
    using showToast_frame [of successToast ?s1] by simp
  show ?thesis
  proof (cases r)
    case (Inr u)
    with r c2 assms show ?thesis
      by (simp add: resumeSubmit_def restoreButton_def formReset_def reset_def)
  next
    case (Inl err)
    let ?s3 = "s2\<lparr> console := console s2 @ [ConsoleError (js ''Form submission error:'') err] \<rparr>"
    obtain r4 s4 where r4: "showToast failureToast ?s3 = (r4, s4)"
      by (cases "showToast failureToast ?s3")
    then have "contactForm s4 = contactForm ?s3"
      using showToast_frame [of failureToast ?s3] by simp
    with r Inl r4 c2 assms show ?thesis
      by (simp add: resumeSubmit_def restoreButton_def)
  qed
qed

text \<open>
  Claim C6. A submission with the four required fields filled and a well-formed e-mail
  address passes validation: the handler disables the button, labels it
  \<^verbatim>\<open>Sending...\<close> and starts the one-second timer. When the timer's callback runs, on
  a page whose toast element has its two text children, it completes without an
  exception, resets every control of the form to its default value (so a form whose
  controls have no preset value is cleared) and shows the success toast.
\<close>

theorem wellformed_submission_succeeds:
  assumes "contactForm s = Some form" and "submitButton form = Some b"
    and "\<not> anyRequiredEmpty (formData form)"
    and "emailRegex_test (toString (formData form ''email''))"
    and "contactForm s2 = Some form2"
    and "toast s2 = Some t" and "toastTitle t \<noteq> None" and "toastDescription t \<noteq> None"
  shows "handleFormSubmit form s =
           (Inr (), s\<lparr> contactForm :=
                          Some (form\<lparr> submitButton :=
                                  Some (b\<lparr> textContent := js ''Sending...'',
                                          disabled := True \<rparr>) \<rparr>),
                        timers := timers s
                          @ [(now s + 1000, ResumeSubmit (formData form) (textContent b))] \<rparr>)
    \<and> fst (run_callback (ResumeSubmit (formData form) (textContent b)) s2) = Inr ()
    \<and> (\<exists>form3. contactForm (snd (run_callback (ResumeSubmit (formData form) (textContent b)) s2))
                   = Some form3
          \<and> controls form3 = controls (reset form2)
          \<and> (noDefaults form2 \<longrightarrow> cleared form3))
    \<and> toast (snd (run_callback (ResumeSubmit (formData form) (textContent b)) s2))
        = Some (displayed successToast t)
    \<and> toastTitle (displayed successToast t) = Some (js ''Success'')
    \<and> toastType (displayed successToast t) = Some (js ''success'')
    \<and> shown (displayed successToast t)"
proof -
  let ?r = "run_callback (ResumeSubmit (formData form) (textContent b)) s2"
  from assms(3,4,2) have 1: "handleFormSubmit form s =
           (Inr (), s\<lparr> contactForm :=
                          Some (form\<lparr> submitButton :=
                                  Some (b\<lparr> textContent := js ''Sending...'',
                                          disabled := True \<rparr>) \<rparr>),
                        timers := timers s
                          @ [(now s + 1000, ResumeSubmit (formData form) (textContent b))] \<rparr>)"
    by (rule handleFormSubmit_valid)
  from assms(6,7,8) have r: "?r =
      (Inr (), restoreButton (textContent b) (formReset
              (s2\<lparr> console := console s2
                      @ [ConsoleLog (js ''Form Submitted:'') (formData form) None],
                  toast := Some (displayed successToast t),
                  timers := timers s2 @ [(now s2 + 5000, HideToast)] \<rparr>)))"
    by (simp add: resumeSubmit_success)
  then have 2: "fst ?r = Inr ()" by simp
  let ?form3 = "(reset form2)\<lparr> submitButton :=
      map_option (\<lambda>b'. b'\<lparr> textContent := textContent b, disabled := False \<rparr>)
        (submitButton (reset form2)) \<rparr>"
  from r assms(5) have c: "contactForm (snd ?r) = Some ?form3"
    by (simp add: restoreButton_def formReset_def)
  have k: "controls ?form3 = controls (reset form2)" by simp
  have "noDefaults form2 \<longrightarrow> cleared ?form3"
    using noDefaults_reset [of form2] by (simp add: cleared_def)
  with c k have 3: "\<exists>form3. contactForm (snd ?r) = Some form3
          \<and> controls form3 = controls (reset form2)
          \<and> (noDefaults form2 \<longrightarrow> cleared form3)"
    by blast
  from r have 4: "toast (snd ?r) = Some (displayed successToast t)"
    by (simp add: restoreButton_def formReset_def)
  have 5: "toastTitle (displayed successToast t) = Some (js ''Success'')"
    "toastType (displayed successToast t) = Some (js ''success'')"
    "shown (displayed successToast t)"
    by (simp_all add: displayed_def successToast_def)
  from 1 2 3 4 5 show ?thesis by blast
qed

text \<open>
  Claim C8. A submission that passes validation disables the button and remembers its
  label. Whatever the page is like when the timer's callback runs (the toast may show
  or \<open>showToast\<close> may throw, in the \<^verbatim>\<open>try\<close> block and again in the \<^verbatim>\<open>catch\<close>
  block), the callback leaves the button enabled and with the remembered label.
\<close>

theorem submit_button_restored:
  assumes "contactForm s = Some form" and "submitButton form = Some b"
    and "\<not> anyRequiredEmpty (formData form)"
    and "emailRegex_test (toString (formData form ''email''))"
    and "contactForm s2 = Some form2" and "submitButton form2 = Some b2"
  shows "contactForm (snd (handleFormSubmit form s))
           = Some (form\<lparr> submitButton :=
                     Some (b\<lparr> textContent := js ''Sending...'', disabled := True \<rparr>) \<rparr>)
    \<and> timers (snd (handleFormSubmit form s))
        = timers s @ [(now s + 1000, ResumeSubmit (formData form) (textContent b))]
    \<and> (\<exists>form3. contactForm (snd (run_callback (ResumeSubmit (formData form) (textContent b)) s2))
                   = Some form3
          \<and> submitButton form3 = Some (b2\<lparr> textContent := textContent b, disabled := False \<rparr>))"
proof -
  from assms(3,4,2) have "handleFormSubmit form s =
           (Inr (), s\<lparr> contactForm :=
                          Some (form\<lparr> submitButton :=
                                  Some (b\<lparr> textContent := js ''Sending...'',
                                          disabled := True \<rparr>) \<rparr>),
                        timers := timers s
                          @ [(now s + 1000, ResumeSubmit (formData form) (textContent b))] \<rparr>)"
    by (rule handleFormSubmit_valid)
  then have "contactForm (snd (handleFormSubmit form s))
           = Some (form\<lparr> submitButton :=
                     Some (b\<lparr> textContent := js ''Sending...'', disabled := True \<rparr>) \<rparr>)"
    and "timers (snd (handleFormSubmit form s))
        = timers s @ [(now s + 1000, ResumeSubmit (formData form) (textContent b))]"
    by simp_all
  moreover from assms(5,6)
  have "\<exists>form3. contactForm (snd (run_callback (ResumeSubmit (formData form) (textContent b)) s2))
                   = Some form3
          \<and> submitButton form3 = Some (b2\<lparr> textContent := textContent b, disabled := False \<rparr>)"
    using resumeSubmit_button [of s2 form2 b2 "formData form" "textContent b"] by simp
  ultimately show ?thesis by blast
qed

text \<open>
  Claim C9. The test for missing fields comes first. With a required field missing
  the handler shows the missing-fields toast whatever the e-mail address looks like;
  the invalid-address toast is shown only when all four fields are filled and the
  address does not match. The two toasts differ in their description.
\<close>

theorem required_fields_checked_before_email:
  "(anyRequiredEmpty (formData form) \<longrightarrow>
      handleFormSubmit form s = showToast missingFieldsToast s)
   \<and> (\<not> anyRequiredEmpty (formData form)
        \<and> \<not> emailRegex_test (toString (formData form ''email'')) \<longrightarrow>
      handleFormSubmit form s = showToast invalidEmailToast s)
   \<and> (\<forall>t. anyRequiredEmpty (formData form)
          \<and> toast s = Some t \<and> toastTitle t \<noteq> None \<and> toastDescription t \<noteq> None \<longrightarrow>
        toast (snd (handleFormSubmit form s)) = Some (displayed missingFieldsToast t)
        \<and> toastDescription (displayed missingFieldsToast t)
            = Some (js ''Please fill in all required fields.'')
        \<and> toastDescription (displayed missingFieldsToast t)
            \<noteq> Some (js ''Please enter a valid email address.''))"
proof -
  have "js ''Please fill in all required fields.'' \<noteq> js ''Please enter a valid email address.''"
    by (simp add: js_def)
  then have "\<forall>t. anyRequiredEmpty (formData form)
          \<and> toast s = Some t \<and> toastTitle t \<noteq> None \<and> toastDescription t \<noteq> None \<longrightarrow>
        toast (snd (handleFormSubmit form s)) = Some (displayed missingFieldsToast t)
        \<and> toastDescription (displayed missingFieldsToast t)
            = Some (js ''Please fill in all required fields.'')
        \<and> toastDescription (displayed missingFieldsToast t)
            \<noteq> Some (js ''Please enter a valid email address.'')"
    by (simp add: handleFormSubmit_missing showToast_displayed displayed_def
        missingFieldsToast_def)
  then show ?thesis
    using handleFormSubmit_missing handleFormSubmit_invalid_email by blast
qed

lemma demo_form_valid:
  "\<not> anyRequiredEmpty (formData demo_form)"
  "emailRegex_test (toString (formData demo_form ''email''))"
  "submitButton demo_form = Some \<lparr> textContent = js ''Send Message'', disabled = False \<rparr>"
    by (simp_all add: anyRequiredEmpty_def formData_def falsy_def toString_def demo_form_def
        email_eval)

lemma demo_form_noDefaults: "noDefaults demo_form"
  by (simp add: noDefaults_def demo_form_def)

theorem wellformed_submission_witness:
  "contactForm demo_page = Some demo_form
   \<and> \<not> anyRequiredEmpty (formData demo_form)
   \<and> emailRegex_test (toString (formData demo_form ''email''))
   \<and> (\<exists>form3. contactForm (run [Submit, Elapse 1000, Fire 0] demo_page) = Some form3
         \<and> cleared form3)
   \<and> toast (run [Submit, Elapse 1000, Fire 0] demo_page)
       = Some (displayed successToast demo_toast)"
proof -
  let ?b = "\<lparr> textContent = js ''Send Message'', disabled = False \<rparr>"
  let ?form2 = "demo_form\<lparr> submitButton :=
                   Some (?b\<lparr> textContent := js ''Sending...'', disabled := True \<rparr>) \<rparr>"
  let ?s2 = "demo_page\<lparr> contactForm := Some ?form2, now := 1000 \<rparr>"
  let ?cb = "ResumeSubmit (formData demo_form) (textContent ?b)"
  have h: "contactForm demo_page = Some demo_form" "contactForm ?s2 = Some ?form2"
    "toast ?s2 = Some demo_toast" "toastTitle demo_toast \<noteq> None"
    "toastDescription demo_toast \<noteq> None"
    by (simp_all add: demo_page_eq demo_toast_def)
  note w = wellformed_submission_succeeds [OF h(1) demo_form_valid(3) demo_form_valid(1,2) h(2-5)]
  from w have a: "handleFormSubmit demo_form demo_page =
           (Inr (), demo_page\<lparr> contactForm := Some ?form2,
                        timers := timers demo_page
                          @ [(now demo_page + 1000, ?cb)] \<rparr>)"
    by blast
  then have r: "run [Submit, Elapse 1000, Fire 0] demo_page = snd (run_callback ?cb ?s2)"
    by (simp add: h(1)) (simp add: demo_page_eq bound_def)
  have "noDefaults ?form2"
    using demo_form_noDefaults by (simp add: noDefaults_def)
  with w have "\<exists>form3. contactForm (snd (run_callback ?cb ?s2)) = Some form3 \<and> cleared form3"
    by blast
  moreover from w have "toast (snd (run_callback ?cb ?s2)) = Some (displayed successToast demo_toast)"
    by blast
  ultimately show ?thesis
    using h(1) demo_form_valid(1,2) unfolding r by blast
qed

theorem submit_button_restored_witness:
  "contactForm (demo_page\<lparr> toast := None \<rparr>) = Some demo_form
   \<and> submitButton demo_form = Some \<lparr> textContent = js ''Send Message'', disabled = False \<rparr>
   \<and> \<not> anyRequiredEmpty (formData demo_form)
   \<and> emailRegex_test (toString (formData demo_form ''email''))
   \<and> fst (run_callback (ResumeSubmit (formData demo_form) (js ''Send Message''))
            (demo_page\<lparr> toast := None, now := 1000,
               contactForm := Some (demo_form\<lparr> submitButton :=
                   Some \<lparr> textContent = js ''Sending...'', disabled = True \<rparr> \<rparr>) \<rparr>))
       = Inl TypeError
   \<and> (\<exists>form3. contactForm (run [Submit, Elapse 1000, Fire 0] (demo_page\<lparr> toast := None \<rparr>))
                  = Some form3
         \<and> submitButton form3 = Some \<lparr> textContent = js ''Send Message'', disabled = False \<rparr>)"
proof -
  let ?s = "demo_page\<lparr> toast := None \<rparr>"
  let ?b = "\<lparr> textContent = js ''Send Message'', disabled = False \<rparr>"
  let ?b2 = "\<lparr> textContent = js ''Sending...'', disabled = True \<rparr>"
  let ?form2 = "demo_form\<lparr> submitButton := Some ?b2 \<rparr>"
  let ?s2 = "demo_page\<lparr> toast := None, now := 1000, contactForm := Some ?form2 \<rparr>"
  let ?cb = "ResumeSubmit (formData demo_form) (js ''Send Message'')"
  have h: "contactForm ?s = Some demo_form" "contactForm ?s2 = Some ?form2"
    "submitButton ?form2 = Some ?b2"
    by (simp_all add: demo_page_eq)
  note w = submit_button_restored [OF h(1) demo_form_valid(3) demo_form_valid(1,2) h(2,3)]
  have f: "fst (run_callback ?cb ?s2) = Inl TypeError"
    by (simp add: resumeSubmit_def showToast_def)
  have "handleFormSubmit demo_form ?s =
           (Inr (), ?s\<lparr> contactForm := Some ?form2,
                        timers := timers ?s @ [(now ?s + 1000, ?cb)] \<rparr>)"
    using handleFormSubmit_valid [OF demo_form_valid(1,2,3), of ?s] by simp
  then have r: "run [Submit, Elapse 1000, Fire 0] ?s = snd (run_callback ?cb ?s2)"
    by (simp add: h(1)) (simp add: demo_page_eq bound_def)
  from w have "\<exists>form3. contactForm (snd (run_callback ?cb ?s2)) = Some form3
         \<and> submitButton form3 = Some ?b"
    by simp
  with f h(1) demo_form_valid show ?thesis
    unfolding r by blast
qed

theorem required_fields_checked_before_email_witness:
  "anyRequiredEmpty (formData (demo_form\<lparr> controls := (controls demo_form)
       (''email'' \<mapsto> \<lparr> cvalue = js ''a@b'', defaultValue = [] \<rparr>,
        ''message'' \<mapsto> \<lparr> cvalue = [], defaultValue = [] \<rparr>) \<rparr>))
   \<and> \<not> emailRegex_test (toString (formData (demo_form\<lparr> controls := (controls demo_form)
       (''email'' \<mapsto> \<lparr> cvalue = js ''a@b'', defaultValue = [] \<rparr>,
        ''message'' \<mapsto> \<lparr> cvalue = [], defaultValue = [] \<rparr>) \<rparr>) ''email''))
   \<and> toast (snd (handleFormSubmit
        (demo_form\<lparr> controls := (controls demo_form)
          (''email'' \<mapsto> \<lparr> cvalue = js ''a@b'', defaultValue = [] \<rparr>,
           ''message'' \<mapsto> \<lparr> cvalue = [], defaultValue = [] \<rparr>) \<rparr>) demo_page))
      = Some (displayed missingFieldsToast demo_toast)
   \<and> toastDescription (displayed missingFieldsToast demo_toast)
      = Some (js ''Please fill in all required fields.'')"
proof -
  let ?form = "demo_form\<lparr> controls := (controls demo_form)
       (''email'' \<mapsto> \<lparr> cvalue = js ''a@b'', defaultValue = [] \<rparr>,
        ''message'' \<mapsto> \<lparr> cvalue = [], defaultValue = [] \<rparr>) \<rparr>"
  have h: "anyRequiredEmpty (formData ?form)"
    by (simp add: anyRequiredEmpty_def formData_def falsy_def)
  have e: "\<not> emailRegex_test (toString (formData ?form ''email''))"
    by (simp add: formData_def toString_def email_eval)
  have t: "toast demo_page = Some demo_toast" "toastTitle demo_toast \<noteq> None"
    "toastDescription demo_toast \<noteq> None"
    by (simp_all add: demo_page_eq demo_toast_def)
  from required_fields_checked_before_email [of ?form demo_page] h t
  have "toast (snd (handleFormSubmit ?form demo_page)) = Some (displayed missingFieldsToast demo_toast)
        \<and> toastDescription (displayed missingFieldsToast demo_toast)
            = Some (js ''Please fill in all required fields.'')"
    by blast
  with h e show ?thesis by blast
qed

subsection \<open>The service field\<close>

lemma formData_erase_form: "formData (erase_form form) = erase_data (formData form)"
  by (simp add: formData_def erase_form_def erase_data_def fun_eq_iff)

lemma erase_data_required:
  "erase_data data ''firstName'' = data ''firstName''"
  "erase_data data ''lastName'' = data ''lastName''"
  "erase_data data ''email'' = data ''email''"
  "erase_data data ''message'' = data ''message''"
  by (simp_all add: erase_data_def)

lemma showToast_without_service:
  "showToast args (without_service s)
     = (fst (showToast args s), without_service (snd (showToast args s)))"
  by (simp add: showToast_def without_service_def setTimeout_def Let_def split: option.splits)

lemma reset_erase_form: "reset (erase_form form) = erase_form (reset form)"
  by (simp add: reset_def erase_form_def fun_eq_iff)

lemma formReset_without_service:
  "formReset (without_service s) = without_service (formReset s)"
  by (simp add: formReset_def without_service_def option.map_comp comp_def reset_erase_form)

lemma restoreButton_without_service:
  "restoreButton t (without_service s) = without_service (restoreButton t s)"
proof (cases "contactForm s")
  case None
  then show ?thesis by (simp add: restoreButton_def without_service_def)
next
  case (Some form)
  have "erase_form (form\<lparr> submitButton :=
            map_option (\<lambda>b. b\<lparr> textContent := t, disabled := False \<rparr>) (submitButton form) \<rparr>)
        = (erase_form form)\<lparr> submitButton :=
            map_option (\<lambda>b. b\<lparr> textContent := t, disabled := False \<rparr>)
              (submitButton (erase_form form)) \<rparr>"
    by (simp add: erase_form_def)
  with Some show ?thesis by (simp add: restoreButton_def without_service_def)
qed

lemma handleFormSubmit_without_service:
  "handleFormSubmit (erase_form form) (without_service s)
     = (fst (handleFormSubmit form s), without_service (snd (handleFormSubmit form s)))"
proof -
  have b: "submitButton (erase_form form) = submitButton form"
    by (simp add: erase_form_def)
  show ?thesis
  proof (cases "submitButton form")
    case None
    with b show ?thesis
      by (simp add: handleFormSubmit_def Let_def formData_erase_form erase_data_required
          showToast_without_service)
  next
    case (Some btn)
    have "setTimeout (ResumeSubmit (erase_data (formData form)) (textContent btn)) 1000
            (without_service s\<lparr> contactForm := Some (erase_form form\<lparr> submitButton :=
               Some (btn\<lparr> textContent := js ''Sending...'', disabled := True \<rparr>) \<rparr>) \<rparr>)
          = without_service (setTimeout (ResumeSubmit (formData form) (textContent btn)) 1000
            (s\<lparr> contactForm := Some (form\<lparr> submitButton :=
               Some (btn\<lparr> textContent := js ''Sending...'', disabled := True \<rparr>) \<rparr>) \<rparr>))"
      by (simp add: setTimeout_def without_service_def erase_form_def)
    with b Some show ?thesis
      by (simp add: handleFormSubmit_def Let_def formData_erase_form erase_data_required
          showToast_without_service)
  qed
qed

lemma console_without_service:
  "without_service s\<lparr> console := console (without_service s) @ [erase_entry e] \<rparr>
     = without_service (s\<lparr> console := console s @ [e] \<rparr>)"
  by (simp add: without_service_def)

lemma resumeSubmit_without_service:
  "resumeSubmit (erase_data data) t (without_service s)
     = (fst (resumeSubmit data t s), without_service (snd (resumeSubmit data t s)))"
proof -
  let ?s1 = "s\<lparr> console := console s @ [ConsoleLog (js ''Form Submitted:'') data None] \<rparr>"
  have 1: "without_service s\<lparr> console := console (without_service s)
              @ [ConsoleLog (js ''Form Submitted:'') (erase_data data) None] \<rparr>
           = without_service ?s1"
    using console_without_service [of s "ConsoleLog (js ''Form Submitted:'') data None"]
    by simp
  obtain r s2 where r: "showToast successToast ?s1 = (r, s2)"
    by (cases "showToast successToast ?s1")
  then have r': "showToast successToast (without_service ?s1) = (r, without_service s2)"
    by (simp add: showToast_without_service)
  show ?thesis
  proof (cases r)
    case (Inr u)
    with r r' 1 show ?thesis
      by (simp add: resumeSubmit_def formReset_without_service restoreButton_without_service)
  next
    case (Inl err)
    let ?s3 = "s2\<lparr> console := console s2 @ [ConsoleError (js ''Form submission error:'') err] \<rparr>"
    have 3: "without_service s2\<lparr> console := console (without_service s2)
              @ [ConsoleError (js ''Form submission error:'') err] \<rparr>
           = without_service ?s3"
      using console_without_service [of s2 "ConsoleError (js ''Form submission error:'') err"]
      by simp
    obtain r4 s4 where r4: "showToast failureToast ?s3 = (r4, s4)"
      by (cases "showToast failureToast ?s3")
    then have "showToast failureToast (without_service ?s3) = (r4, without_service s4)"
      by (simp add: showToast_without_service)
    with r r' Inl 1 3 r4 show ?thesis
      by (simp add: resumeSubmit_def restoreButton_without_service)
  qed
qed

lemma toast_without_service: "toast (without_service s) = toast s"
  by (simp add: without_service_def)

text \<open>
  Claim C10. The service field takes no part in the control flow of the submission.
  Take two pages, and two forms, that differ in nothing but the service control (its
  value, or whether it is there at all). The submit handler then ends the same way on
  both (the same normal or exceptional outcome), shows the same toast, and leaves
  pages that again differ in nothing but the service field; so does the callback of
  the one-second timer, for captured data that differ in the service entry only. The
  service value travels to the console entry and nowhere else.
\<close>

theorem service_field_never_influences_submission:
  assumes "without_service s1 = without_service s2"
    and "erase_form form1 = erase_form form2"
  shows "fst (handleFormSubmit form1 s1) = fst (handleFormSubmit form2 s2)
    \<and> without_service (snd (handleFormSubmit form1 s1))
        = without_service (snd (handleFormSubmit form2 s2))
    \<and> toast (snd (handleFormSubmit form1 s1)) = toast (snd (handleFormSubmit form2 s2))
    \<and> (\<forall>data1 data2 t. erase_data data1 = erase_data data2 \<longrightarrow>
          fst (resumeSubmit data1 t s1) = fst (resumeSubmit data2 t s2)
          \<and> without_service (snd (resumeSubmit data1 t s1))
              = without_service (snd (resumeSubmit data2 t s2))
          \<and> toast (snd (resumeSubmit data1 t s1)) = toast (snd (resumeSubmit data2 t s2)))"
proof -
  have "handleFormSubmit (erase_form form1) (without_service s1)
          = handleFormSubmit (erase_form form2) (without_service s2)"
    using assms by simp
  then have h: "fst (handleFormSubmit form1 s1) = fst (handleFormSubmit form2 s2)"
    "without_service (snd (handleFormSubmit form1 s1))
        = without_service (snd (handleFormSubmit form2 s2))"
    by (simp_all add: handleFormSubmit_without_service)
  from h(2) have ht: "toast (snd (handleFormSubmit form1 s1)) = toast (snd (handleFormSubmit form2 s2))"
    using toast_without_service by metis
  have "\<forall>data1 data2 t. erase_data data1 = erase_data data2 \<longrightarrow>
          fst (resumeSubmit data1 t s1) = fst (resumeSubmit data2 t s2)
          \<and> without_service (snd (resumeSubmit data1 t s1))
              = without_service (snd (resumeSubmit data2 t s2))
          \<and> toast (snd (resumeSubmit data1 t s1)) = toast (snd (resumeSubmit data2 t s2))"
  proof (intro allI impI)
    fix data1 data2 t
    assume "erase_data data1 = erase_data data2"
    with assms(1) have "resumeSubmit (erase_data data1) t (without_service s1)
          = resumeSubmit (erase_data data2) t (without_service s2)"
      by simp
    then have r: "fst (resumeSubmit data1 t s1) = fst (resumeSubmit data2 t s2)"
      "without_service (snd (resumeSubmit data1 t s1))
              = without_service (snd (resumeSubmit data2 t s2))"
      by (simp_all add: resumeSubmit_without_service)
    from r(2) have "toast (snd (resumeSubmit data1 t s1)) = toast (snd (resumeSubmit data2 t s2))"
      using toast_without_service by metis
    with r show "fst (resumeSubmit data1 t s1) = fst (resumeSubmit data2 t s2)
          \<and> without_service (snd (resumeSubmit data1 t s1))
              = without_service (snd (resumeSubmit data2 t s2))
          \<and> toast (snd (resumeSubmit data1 t s1)) = toast (snd (resumeSubmit data2 t s2))"
      by blast
  qed
  with h ht show ?thesis by blast
qed

theorem service_field_witness:
  "without_service demo_page
     = without_service (demo_page\<lparr> contactForm := Some (erase_form demo_form) \<rparr>)
   \<and> erase_form demo_form = erase_form (erase_form demo_form)
   \<and> formData demo_form ''service'' = Some (js ''web'')
   \<and> formData (erase_form demo_form) ''service'' = None
   \<and> fst (handleFormSubmit demo_form demo_page) = Inr ()
   \<and> fst (handleFormSubmit (erase_form demo_form)
            (demo_page\<lparr> contactForm := Some (erase_form demo_form) \<rparr>)) = Inr ()
   \<and> without_service (snd (handleFormSubmit demo_form demo_page))
     = without_service (snd (handleFormSubmit (erase_form demo_form)
            (demo_page\<lparr> contactForm := Some (erase_form demo_form) \<rparr>)))"
proof -
  let ?s2 = "demo_page\<lparr> contactForm := Some (erase_form demo_form) \<rparr>"
  have h: "without_service demo_page = without_service ?s2"
    "erase_form demo_form = erase_form (erase_form demo_form)"
    by (simp_all add: without_service_def erase_form_def demo_page_eq)
  have v: "formData demo_form ''service'' = Some (js ''web'')"
    "formData (erase_form demo_form) ''service'' = None"
    by (simp_all add: formData_def erase_form_def demo_form_def)
  have o: "fst (handleFormSubmit demo_form demo_page) = Inr ()"
    using handleFormSubmit_valid [OF demo_form_valid(1,2,3), of demo_page] by simp
  from service_field_never_influences_submission [OF h]
  have "fst (handleFormSubmit demo_form demo_page)
          = fst (handleFormSubmit (erase_form demo_form) ?s2)"
    "without_service (snd (handleFormSubmit demo_form demo_page))
     = without_service (snd (handleFormSubmit (erase_form demo_form) ?s2))"
    by blast+
  with h v o show ?thesis by simp
qed

subsection \<open>The diagnostic log\<close>

lemma legacy_showToast_frame:
  "console (snd (legacy_showToast ttl msg ty s)) = console s
   \<and> now (snd (legacy_showToast ttl msg ty s)) = now s"
  by (simp add: legacy_showToast_def setTimeout_def Let_def split: option.splits)

lemma legacy_settle_logs:
  assumes "fst (legacy_settle data t s) = Inr ()"
  shows "console (snd (legacy_settle data t s))
           = console s @ [ConsoleLog (js ''Contact form submission:'')
                            (data(''timestamp'' := None)) (Some (now s))]"
proof -
  let ?s1 = "restoreButton t (formReset s)"
  let ?msg = "js ''Your message has been sent successfully! We'' @ [0x27]
                @ js ''ll get back to you soon.''"
  obtain r s2 where r: "legacy_showToast (js ''Success'') ?msg (js ''success'') ?s1 = (r, s2)"
    by (cases "legacy_showToast (js ''Success'') ?msg (js ''success'') ?s1")
  then have f: "console s2 = console ?s1" "now s2 = now ?s1"
    using legacy_showToast_frame [of "js ''Success''" ?msg "js ''success''" ?s1] by simp_all
  have g: "console ?s1 = console s" "now ?s1 = now s"
    by (simp_all add: restoreButton_def formReset_def)
  show ?thesis
  proof (cases r)
    case (Inl err)
    with r assms show ?thesis by (simp add: legacy_settle_def)
  next
    case (Inr u)
    with r f g show ?thesis by (simp add: legacy_settle_def)
  qed
qed

lemma run_demo_submission:
  "run [Submit, Elapse 1000, Fire 0] demo_page =
     demo_page\<lparr> now := 1000,
       console := [ConsoleLog (js ''Form Submitted:'') (formData demo_form) None],
       toast := Some (displayed successToast demo_toast),
       timers := [(6000, HideToast)],
       contactForm := Some (reset demo_form) \<rparr>"
proof -
  let ?b = "\<lparr> textContent = js ''Send Message'', disabled = False \<rparr>"
  let ?form2 = "demo_form\<lparr> submitButton :=
                   Some (?b\<lparr> textContent := js ''Sending...'', disabled := True \<rparr>) \<rparr>"
  let ?s2 = "demo_page\<lparr> contactForm := Some ?form2, now := 1000, timers := [] \<rparr>"
  have c: "contactForm demo_page = Some demo_form" "bound OnFormSubmit demo_page"
    "timers demo_page = []" "now demo_page = 0"
    by (simp_all add: demo_page_eq bound_def)
  have t: "toast ?s2 = Some demo_toast" "toastTitle demo_toast \<noteq> None"
    "toastDescription demo_toast \<noteq> None"
    by (simp_all add: demo_page_eq demo_toast_def)
  have "handleFormSubmit demo_form demo_page =
           (Inr (), demo_page\<lparr> contactForm := Some ?form2,
                        timers := timers demo_page
                          @ [(now demo_page + 1000,
                              ResumeSubmit (formData demo_form) (textContent ?b))] \<rparr>)"
    using handleFormSubmit_valid [OF demo_form_valid(1,2,3), of demo_page] by simp
  with c have "run [Submit, Elapse 1000, Fire 0] demo_page =
      snd (resumeSubmit (formData demo_form) (js ''Send Message'') ?s2)"
    by simp
  also have "\<dots> = restoreButton (js ''Send Message'') (formReset
              (?s2\<lparr> console := console ?s2
                      @ [ConsoleLog (js ''Form Submitted:'') (formData demo_form) None],
                  toast := Some (displayed successToast demo_toast),
                  timers := timers ?s2 @ [(now ?s2 + 5000, HideToast)] \<rparr>))"
    using resumeSubmit_success [OF t] by simp
  also have "\<dots> = demo_page\<lparr> now := 1000,
       console := [ConsoleLog (js ''Form Submitted:'') (formData demo_form) None],
       toast := Some (displayed successToast demo_toast),
       timers := [(6000, HideToast)],
       contactForm := Some (reset demo_form) \<rparr>"
    by (simp add: restoreButton_def formReset_def demo_page_eq reset_def demo_form_def)
  finally show ?thesis .
qed

text \<open>
  Claim C7, as stated, asks for a timestamp with every record of a successful
  submission. It fails on the controller: the demonstration submission succeeds (the
  success toast shows) and the one console entry it leaves carries the form data and
  no timestamp.
\<close>

theorem successful_submission_logged_without_timestamp:
  "toast (run [Submit, Elapse 1000, Fire 0] demo_page)
     = Some (displayed successToast demo_toast)
   \<and> console (run [Submit, Elapse 1000, Fire 0] demo_page)
     = [ConsoleLog (js ''Form Submitted:'') (formData demo_form) None]
   \<and> \<not> list_ex stamped (console (run [Submit, Elapse 1000, Fire 0] demo_page))"
  unfolding run_demo_submission by simp

text \<open>
  Claim C7, amended. Every successful submission is recorded on the console with the
  submitted field values. The controller's record is the data alone. The earlier
  script's handler records the data together with a \<^verbatim>\<open>timestamp\<close> property, the
  clock reading at the time of logging.
\<close>

theorem successful_submission_logged:
  "(\<forall>t. toast s = Some t \<and> toastTitle t \<noteq> None \<and> toastDescription t \<noteq> None \<longrightarrow>
      fst (resumeSubmit data label s) = Inr ()
      \<and> console (snd (resumeSubmit data label s))
          = console s @ [ConsoleLog (js ''Form Submitted:'') data None])
   \<and> (fst (legacy_settle data label s) = Inr () \<longrightarrow>
      console (snd (legacy_settle data label s))
        = console s @ [ConsoleLog (js ''Contact form submission:'')
                         (data(''timestamp'' := None)) (Some (now s))])"
proof -
  have "\<forall>t. toast s = Some t \<and> toastTitle t \<noteq> None \<and> toastDescription t \<noteq> None \<longrightarrow>
      fst (resumeSubmit data label s) = Inr ()
      \<and> console (snd (resumeSubmit data label s))
          = console s @ [ConsoleLog (js ''Form Submitted:'') data None]"
    by (simp add: resumeSubmit_success restoreButton_def formReset_def)
  then show ?thesis using legacy_settle_logs by blast
qed

theorem successful_submission_logged_witness:
  "toast demo_page = Some demo_toast \<and> toastTitle demo_toast \<noteq> None
   \<and> toastDescription demo_toast \<noteq> None
   \<and> console (snd (resumeSubmit (formData demo_form) (js ''Send Message'')
                     (demo_page\<lparr> now := 1000 \<rparr>)))
       = [ConsoleLog (js ''Form Submitted:'') (formData demo_form) None]
   \<and> fst (legacy_settle (formData demo_form) (js ''Send Message'')
            (demo_page\<lparr> now := 1000 \<rparr>)) = Inr ()
   \<and> console (snd (legacy_settle (formData demo_form) (js ''Send Message'')
                     (demo_page\<lparr> now := 1000 \<rparr>)))
       = [ConsoleLog (js ''Contact form submission:'')
            ((formData demo_form)(''timestamp'' := None)) (Some 1000)]"
proof -
  let ?s = "demo_page\<lparr> now := 1000 \<rparr>"
  have t: "toast demo_page = Some demo_toast" "toast ?s = Some demo_toast"
    "toastTitle demo_toast \<noteq> None" "toastDescription demo_toast \<noteq> None"
    "console ?s = []" "now ?s = 1000"
    by (simp_all add: demo_page_eq demo_toast_def)
  have l: "fst (legacy_settle (formData demo_form) (js ''Send Message'') ?s) = Inr ()"
    by (simp add: legacy_settle_def legacy_showToast_def restoreButton_def formReset_def
        demo_page_eq demo_toast_def Let_def)
  note w = successful_submission_logged [of ?s "formData demo_form" "js ''Send Message''"]
  from w t have "console (snd (resumeSubmit (formData demo_form) (js ''Send Message'') ?s))
       = console ?s @ [ConsoleLog (js ''Form Submitted:'') (formData demo_form) None]"
    by blast
  moreover from w l have "console (snd (legacy_settle (formData demo_form) (js ''Send Message'') ?s))
       = console ?s @ [ConsoleLog (js ''Contact form submission:'')
            ((formData demo_form)(''timestamp'' := None)) (Some (now ?s))]"
    by blast
  ultimately show ?thesis using t l by simp
qed

subsection \<open>Initialisation without a required element\<close>

lemma init_completes:
  assumes "doc_mobileMenuToggle doc" "doc_mobileMenuClose doc" "doc_mobileMenuOverlay doc"
  shows "fst (init doc s) = Inr ()"
  using assms by (simp add: init_def bindEvents_def cacheDOMElements_def addEventListener_def
      addEventListeners_def Let_def)

lemma init_throws:
  assumes "\<not> (doc_mobileMenuToggle doc \<and> doc_mobileMenuClose doc \<and> doc_mobileMenuOverlay doc)"
  shows "fst (init doc App) = Inl TypeError
         \<and> \<not> List.member (listeners (snd (init doc App))) OnScroll
         \<and> \<not> List.member (listeners (snd (init doc App))) OnKeydown
         \<and> \<not> List.member (listeners (snd (init doc App))) OnFormSubmit"
  using assms by (auto simp: init_def bindEvents_def cacheDOMElements_def addEventListener_def
      addEventListeners_def Let_def App_def)

text \<open>
  Claim C1 asks that \<open>init\<close> completes whichever required element is missing, with
  the behaviours of the elements that are there still wired. The code tests the
  contact form only. On the demonstration document without its menu toggle \<open>init\<close>
  ends with a TypeError in \<open>bindEvents\<close>: no listener at all is bound (the form,
  scroll and keyboard listeners come later in \<open>bindEvents\<close>), and the observer,
  preloading and page-load steps do not run. Without the toast, or without the header,
  \<open>init\<close> completes, but the dependent listener is bound all the same and throws a
  TypeError when its event arrives.
\<close>

theorem init_aborts_without_menu_toggle:
  "init (demo_document\<lparr> doc_mobileMenuToggle := False \<rparr>) App
     = (Inl TypeError, cacheDOMElements (demo_document\<lparr> doc_mobileMenuToggle := False \<rparr>) App)
   \<and> contactForm (snd (init (demo_document\<lparr> doc_mobileMenuToggle := False \<rparr>) App))
       = Some demo_form
   \<and> listeners (snd (init (demo_document\<lparr> doc_mobileMenuToggle := False \<rparr>) App)) = []
   \<and> preloaded (snd (init (demo_document\<lparr> doc_mobileMenuToggle := False \<rparr>) App)) = 0
   \<and> \<not> fadeInRequested (snd (init (demo_document\<lparr> doc_mobileMenuToggle := False \<rparr>) App))
   \<and> fst (init (demo_document\<lparr> doc_toast := None \<rparr>) App) = Inr ()
   \<and> bound OnKeydown (snd (init (demo_document\<lparr> doc_toast := None \<rparr>) App))
   \<and> fst (handleKeyboard (js ''Escape'') (snd (init (demo_document\<lparr> doc_toast := None \<rparr>) App)))
       = Inl TypeError
   \<and> fst (init (demo_document\<lparr> doc_header := None \<rparr>) App) = Inr ()
   \<and> bound OnScroll (snd (init (demo_document\<lparr> doc_header := None \<rparr>) App))
   \<and> fst (throttledScrollHandler (snd (init (demo_document\<lparr> doc_header := None \<rparr>) App)))
       = Inl TypeError"
  by (simp add: init_eval demo_document_def bound_def handleKeyboard_def
      throttledScrollHandler_def throttle_def handleScroll_def numeral_2_eq_2)

subsection \<open>Two toasts within five seconds\<close>

lemma first_toast:
  "run [Input ''message'' [], Submit, Elapse 2000, Input ''message'' (js ''Hello'')] demo_page
     = demo_page\<lparr> now := 2000, toast := Some (displayed missingFieldsToast demo_toast),
                   timers := [(5000, HideToast)] \<rparr>"
  by (simp add: demo_page_eq form_eval demo_form_def demo_toast_def)

lemma second_toast:
  "run [Submit, Elapse 1000, Fire 1]
       (demo_page\<lparr> now := 2000, toast := Some (displayed missingFieldsToast demo_toast),
                   timers := [(5000, HideToast)] \<rparr>)
     = demo_page\<lparr> now := 3000,
         toast := Some (displayed successToast (displayed missingFieldsToast demo_toast)),
         timers := [(5000, HideToast), (8000, HideToast)],
         console := [ConsoleLog (js ''Form Submitted:'') (formData demo_form) None],
         contactForm := Some (reset demo_form) \<rparr>"
proof -
  let ?s = "demo_page\<lparr> now := 2000, toast := Some (displayed missingFieldsToast demo_toast),
                   timers := [(5000, HideToast)] \<rparr>"
  let ?form2 = "demo_form\<lparr> submitButton :=
                   Some \<lparr> textContent = js ''Sending...'', disabled = True \<rparr> \<rparr>"
  let ?s2 = "demo_page\<lparr> now := 3000, toast := Some (displayed missingFieldsToast demo_toast),
                   timers := [(5000, HideToast)], contactForm := Some ?form2 \<rparr>"
  have c: "contactForm ?s = Some demo_form" "bound OnFormSubmit ?s"
    by (simp_all add: demo_page_eq bound_def)
  have t: "toast ?s2 = Some (displayed missingFieldsToast demo_toast)"
    "toastTitle (displayed missingFieldsToast demo_toast) \<noteq> None"
    "toastDescription (displayed missingFieldsToast demo_toast) \<noteq> None"
    by (simp_all add: displayed_def)
  have "handleFormSubmit demo_form ?s =
           (Inr (), ?s\<lparr> contactForm := Some ?form2,
                        timers := timers ?s
                          @ [(now ?s + 1000,
                              ResumeSubmit (formData demo_form) (js ''Send Message''))] \<rparr>)"
    using handleFormSubmit_valid [OF demo_form_valid(1,2,3), of ?s] by simp
  with c have "run [Submit, Elapse 1000, Fire 1] ?s =
      snd (resumeSubmit (formData demo_form) (js ''Send Message'') ?s2)"
    by simp (simp add: demo_page_eq)
  also have "\<dots> = restoreButton (js ''Send Message'') (formReset
              (?s2\<lparr> console := console ?s2
                      @ [ConsoleLog (js ''Form Submitted:'') (formData demo_form) None],
                  toast := Some (displayed successToast (displayed missingFieldsToast demo_toast)),
                  timers := timers ?s2 @ [(now ?s2 + 5000, HideToast)] \<rparr>))"
    using resumeSubmit_success [OF t] by simp
  also have "\<dots> = demo_page\<lparr> now := 3000,
         toast := Some (displayed successToast (displayed missingFieldsToast demo_toast)),
         timers := [(5000, HideToast), (8000, HideToast)],
         console := [ConsoleLog (js ''Form Submitted:'') (formData demo_form) None],
         contactForm := Some (reset demo_form) \<rparr>"
    by (simp add: restoreButton_def formReset_def demo_page_eq reset_def demo_form_def)
  finally show ?thesis .
qed

lemma run_append: "run (es @ fs) s = run fs (run es s)"
  by (induction es arbitrary: s) simp_all

text \<open>
  Claim C3 asks that a second toast within five seconds restarts the expiry. The code
  starts a new timer and leaves the old one pending. The user submits with an empty
  message (error toast at 0 ms), fills the message in and submits again at 2000 ms;
  the success toast shows at 3000 ms, with hide timers pending for 5000 ms and
  8000 ms. At 5000 ms the first toast's timer runs and hides the success toast, two
  seconds after it was shown.
\<close>

theorem second_toast_hidden_by_first_timer:
  "now (run [Input ''message'' [], Submit, Elapse 2000, Input ''message'' (js ''Hello''),
             Submit, Elapse 1000, Fire 1] demo_page) = 3000
   \<and> toast (run [Input ''message'' [], Submit, Elapse 2000, Input ''message'' (js ''Hello''),
                 Submit, Elapse 1000, Fire 1] demo_page)
       = Some (displayed successToast (displayed missingFieldsToast demo_toast))
   \<and> shown (displayed successToast (displayed missingFieldsToast demo_toast))
   \<and> timers (run [Input ''message'' [], Submit, Elapse 2000, Input ''message'' (js ''Hello''),
                  Submit, Elapse 1000, Fire 1] demo_page)
       = [(5000, HideToast), (8000, HideToast)]
   \<and> now (run [Input ''message'' [], Submit, Elapse 2000, Input ''message'' (js ''Hello''),
               Submit, Elapse 1000, Fire 1, Elapse 2000, Fire 0] demo_page) = 5000
   \<and> toast (run [Input ''message'' [], Submit, Elapse 2000, Input ''message'' (js ''Hello''),
                 Submit, Elapse 1000, Fire 1, Elapse 2000, Fire 0] demo_page)
       = Some ((displayed successToast (displayed missingFieldsToast demo_toast))
                 \<lparr> shown := False \<rparr>)
   \<and> timers (run [Input ''message'' [], Submit, Elapse 2000, Input ''message'' (js ''Hello''),
                  Submit, Elapse 1000, Fire 1, Elapse 2000, Fire 0] demo_page)
       = [(8000, HideToast)]"
proof -
  let ?a = "[Input ''message'' [], Submit, Elapse 2000, Input ''message'' (js ''Hello'')]"
  let ?b = "[Submit, Elapse 1000, Fire 1]"
  let ?c = "[Elapse 2000, Fire 0]"
  let ?s3 = "demo_page\<lparr> now := 3000,
         toast := Some (displayed successToast (displayed missingFieldsToast demo_toast)),
         timers := [(5000, HideToast), (8000, HideToast)],
         console := [ConsoleLog (js ''Form Submitted:'') (formData demo_form) None],
         contactForm := Some (reset demo_form) \<rparr>"
  let ?s5 = "?s3\<lparr> now := 5000, timers := [(8000, HideToast)],
               toast := Some ((displayed successToast (displayed missingFieldsToast demo_toast))
                                \<lparr> shown := False \<rparr>) \<rparr>"
  have l1: "[Input ''message'' [], Submit, Elapse 2000, Input ''message'' (js ''Hello''),
             Submit, Elapse 1000, Fire 1] = ?a @ ?b"
    by simp
  have l2: "[Input ''message'' [], Submit, Elapse 2000, Input ''message'' (js ''Hello''),
             Submit, Elapse 1000, Fire 1, Elapse 2000, Fire 0] = (?a @ ?b) @ ?c"
    by simp
  have 1: "run (?a @ ?b) demo_page = ?s3"
    by (simp only: run_append first_toast second_toast)
  have 3: "run ?c ?s3 = ?s5"
    by (simp add: hideToast_def)
  have 2: "run ((?a @ ?b) @ ?c) demo_page = ?s5"
    by (simp only: run_append [of "?a @ ?b" ?c] 1 3)
  have 4: "shown (displayed successToast (displayed missingFieldsToast demo_toast))"
    by (simp add: displayed_def)
  show ?thesis
    unfolding l1 l2 1 2 using 4 by simp
qed

end
